theory Spec2Isabelle
  imports Complex_Main "HOL-Library.AList"
begin

section \<open>Data model of goposm\<close>

text \<open>
  The embedding follows \<^verbatim>\<open>goposm.go\<close>. Packages \<^verbatim>\<open>element\<close>, \<^verbatim>\<open>cache\<close>,
  \<^verbatim>\<open>geom\<close>, \<^verbatim>\<open>mapping\<close>, \<^verbatim>\<open>proj\<close> and \<^verbatim>\<open>writer\<close> are imported by the file;
  their operations are either fields of the record \<open>Env\<close> (external collaborators whose
  results the control flow of \<^verbatim>\<open>main\<close> branches on) or small definitions of their own.
  Coordinates are \<^verbatim>\<open>float64\<close> in the program; no arithmetic is done on them here
  (projection is a collaborator), so they are carried as \<open>real\<close>.
\<close>

type_synonym tags = "(string \<times> string) list"
type_synonym geometry = "nat list"
text \<open>A row is a list of column values (\<^verbatim>\<open>[]interface{}\<close> in the program).\<close>

datatype Value = IntV int | StrV string | GeomV "geometry option"

type_synonym row = "Value list"

text \<open>\<^verbatim>\<open>element.OSMElem\<close>: the sub-record shared by nodes, ways and relations.\<close>

record OSMElem =
  ElemId :: int
  Tags :: tags
  Geom :: "geometry option"

record Node =
  NodeElem :: OSMElem
  Long :: real
  Lat :: real

record Way =
  WayElem :: OSMElem
  Refs :: "int list"
  Nodes :: "Node list"

datatype MemberType = NODE | WAY | RELATION

text \<open>
  \<^verbatim>\<open>element.Member\<close>: \<open>MWay\<close> is the pointer field \<^verbatim>\<open>Way\<close>, \<open>None\<close> for \<^verbatim>\<open>nil\<close>.
\<close>

record Member =
  MemberId :: int
  Type :: MemberType
  Role :: string
  MWay :: "Way option"

record Relation =
  RelElem :: OSMElem
  Members :: "Member list"

text \<open>
  Go \<^verbatim>\<open>error\<close> values. \<open>NotFound\<close> is the sentinel \<^verbatim>\<open>cache.NotFound\<close>;
  \<open>LevelError l msg\<close> is an error whose dynamic type has a \<^verbatim>\<open>Level() int\<close> method
  returning \<open>l\<close>; \<open>OtherError msg\<close> is any other error.
\<close>

datatype error = NotFound | LevelError int string | OtherError string

text \<open>
  The type assertion \<^verbatim>\<open>err.(ErrorLevel)\<close> followed by \<^verbatim>\<open>Level()\<close>: \<open>None\<close> when
  the assertion's \<^verbatim>\<open>ok\<close> is false.
\<close>

fun Level :: "error \<Rightarrow> int option" where
  "Level (LevelError l msg) = Some l"
| "Level NotFound = None"
| "Level (OtherError msg) = None"

text \<open>A match returned by a tag matcher: the table and the row builder.\<close>

record Match =
  Table :: string
  Row :: "OSMElem \<Rightarrow> row"

text \<open>Calls observed on the caches, in program order.\<close>

datatype Event =
    CoordsSetLinearImport bool
  | CoordsPutCoords "Node list"
  | CoordsFlush
  | CoordsFillWay int
  | WaysPutWays "Way list"
  | WaysFillMembers
  | WaysIter
  | RelationsPutRelations "Relation list"
  | RelationsIter
  | NodesPutNodes "Node list"
  | NodesIter
  | InsertedWaysPutMembers "Member list"
  | InsertedWaysIsInserted int
  | DiffCacheRemove
  | DiffCacheOpen
  | DiffCoordsAddFromWay Way
  | DiffCoordsClose
  | CacheRemove
  | CacheOpen
  | CacheClose

text \<open>
  The collaborators \<^verbatim>\<open>main\<close> calls. Functions that mutate their argument through a
  pointer return the updated value next to the error.
\<close>

record Env =
  FillMembers :: "Member list \<Rightarrow> error option \<times> Member list"
  FillWay :: "Way \<Rightarrow> error option \<times> Way"
  NodesToMerc :: "Node list \<Rightarrow> Node list"
  NodeToMerc :: "Node \<Rightarrow> Node"
  BuildRelation :: "Relation \<Rightarrow> error option \<times> Relation"
  PolygonMatcher :: "OSMElem \<Rightarrow> Match list"
  LineStringMatcher :: "OSMElem \<Rightarrow> Match list"
  PointMatcher :: "OSMElem \<Rightarrow> Match list"
  LineStringWKB :: "Node list \<Rightarrow> error + geometry"
  PolygonWKB :: "Node list \<Rightarrow> error + geometry"
  PointWKB :: "Node \<Rightarrow> error + geometry"

text \<open>
  What a run changes: rows handed to \<^verbatim>\<open>insertBuffer.Insert\<close>, lines written by
  \<^verbatim>\<open>log.Println\<close> and by \<^verbatim>\<open>fmt.Println\<close>, the inserted-ways store, the calls made
  on the caches (among them the ways recorded in the diff coord store), and the contents
  of the four stores the read phase writes. The results of cache reads in the write phase
  are parameters (\<open>Env\<close>): the cache outlives the process and may hold earlier data.
\<close>

record State =
  rows :: "(string \<times> row) list"
  logged :: "error list"
  printed :: "error list"
  inserted :: "int set"
  trace :: "Event list"
  CoordsStore :: "int \<rightharpoonup> Node"
  NodesStore :: "int \<rightharpoonup> Node"
  WaysStore :: "int \<rightharpoonup> Way"
  RelationsStore :: "int \<rightharpoonup> Relation"

section \<open>The write phase\<close>

text \<open>
  The block that follows every geometry build in \<^verbatim>\<open>main\<close>:
  \<^verbatim>\<open>if err, ok := err.(ErrorLevel); ok { if err.Level() <= 0 { continue } }
  log.Println(err); continue\<close>. The \<^verbatim>\<open>continue\<close> is left to the caller.
\<close>

definition log_geom_error :: "error \<Rightarrow> State \<Rightarrow> State" where
  "log_geom_error err s =
     (case Level err of
        Some l \<Rightarrow> if l \<le> 0 then s else s\<lparr>logged := logged s @ [err]\<rparr>
      | None \<Rightarrow> s\<lparr>logged := logged s @ [err]\<rparr>)"

text \<open>
  \<^verbatim>\<open>for _, match := range matches { row := match.Row(elem); insertBuffer.Insert(match.Table, row) }\<close>
\<close>

definition insert_matches :: "Match list \<Rightarrow> OSMElem \<Rightarrow> State \<Rightarrow> State" where
  "insert_matches matches elem s =
     s\<lparr>rows := rows s @ map (\<lambda>m. (Table m, Row m elem)) matches\<rparr>"

definition emit :: "Event \<Rightarrow> State \<Rightarrow> State" where
  "emit e s = s\<lparr>trace := trace s @ [e]\<rparr>"

text \<open>
  Modelled from the spec: the inserted-ways store of package \<^verbatim>\<open>cache\<close>, which is not
  part of \<^verbatim>\<open>goposm.go\<close>. It is a set of way ids; \<open>PutMembers\<close> inserts the ids of
  all way-typed members, \<open>IsInserted\<close> queries membership. Both return an error value
  in the program; the spec names no failure, so the error is \<open>None\<close> here.
\<close>

definition PutMembers :: "Member list \<Rightarrow> State \<Rightarrow> error option \<times> State" where
  "PutMembers members s =
     (None, emit (InsertedWaysPutMembers members)
        (s\<lparr>inserted := inserted s \<union> MemberId ` set (filter (\<lambda>m. Type m = WAY) members)\<rparr>))"

definition IsInserted :: "int \<Rightarrow> State \<Rightarrow> (bool \<times> error option) \<times> State" where
  "IsInserted i s = ((i \<in> inserted s, None), emit (InsertedWaysIsInserted i) s)"

text \<open>
  Modelled from the spec: \<^verbatim>\<open>Way.IsClosed\<close> of package \<^verbatim>\<open>element\<close>, which is not
  part of \<^verbatim>\<open>goposm.go\<close>. A way is closed iff its node-id sequence has length \<open>\<ge> 4\<close>
  and its first id equals its last.
\<close>

definition IsClosed :: "Way \<Rightarrow> bool" where
  "IsClosed w = (length (Refs w) \<ge> 4 \<and> Refs w ! 0 = Refs w ! (length (Refs w) - 1))"

subsection \<open>Relation assembler\<close>

text \<open>
  One iteration of \<^verbatim>\<open>for _, m := range r.Members\<close>: a \<^verbatim>\<open>nil\<close> way is passed over;
  \<^verbatim>\<open>NotFound\<close> from \<^verbatim>\<open>FillWay\<close> falls through to the projection; any other error is
  printed and the projection is skipped.
\<close>

definition fill_member :: "Env \<Rightarrow> Member \<Rightarrow> State \<Rightarrow> Member \<times> State" where
  "fill_member env m s =
     (case MWay m of
        None \<Rightarrow> (m, s)
      | Some w \<Rightarrow>
          (let (err, w1) = FillWay env w;
               s1 = emit (CoordsFillWay (ElemId (WayElem w))) s;
               projected = m\<lparr>MWay := Some (w1\<lparr>Nodes := NodesToMerc env (Nodes w1)\<rparr>)\<rparr>
           in case err of
                None \<Rightarrow> (projected, s1)
              | Some NotFound \<Rightarrow> (projected, s1)
              | Some e \<Rightarrow> (m\<lparr>MWay := Some w1\<rparr>, s1\<lparr>printed := printed s1 @ [e]\<rparr>)))"

fun fill_members_coords :: "Env \<Rightarrow> Member list \<Rightarrow> State \<Rightarrow> Member list \<times> State" where
  "fill_members_coords env [] s = ([], s)"
| "fill_members_coords env (m # ms) s =
     (let (m1, s1) = fill_member env m s;
          (ms1, s2) = fill_members_coords env ms s1
      in (m1 # ms1, s2))"

text \<open>The body of \<^verbatim>\<open>for r := range rel\<close> (progress counting left out).\<close>

definition relation_step :: "Env \<Rightarrow> Relation \<Rightarrow> State \<Rightarrow> State" where
  "relation_step env r s =
     (let (err, ms) = FillMembers env (Members r);
          s1 = emit WaysFillMembers s;
          go_on =
            (let (ms1, s2) = fill_members_coords env ms s1;
                 (berr, r1) = BuildRelation env (r\<lparr>Members := ms1\<rparr>)
             in case berr of
                  Some e \<Rightarrow> log_geom_error e s2
                | None \<Rightarrow>
                    (let matches = PolygonMatcher env (RelElem r1)
                     in if length matches > 0 then
                          (let s3 = insert_matches matches (RelElem r1) s2;
                               (perr, s4) = PutMembers (Members r1) s3
                           in case perr of
                                Some e \<Rightarrow> s4\<lparr>printed := printed s4 @ [e]\<rparr>
                              | None \<Rightarrow> s4)
                        else s2))
      in case err of
           None \<Rightarrow> go_on
         | Some NotFound \<Rightarrow> go_on
         | Some e \<Rightarrow> s1\<lparr>printed := printed s1 @ [e]\<rparr>)"

fun relation_assembler :: "Env \<Rightarrow> Relation list \<Rightarrow> State \<Rightarrow> State" where
  "relation_assembler env [] s = s"
| "relation_assembler env (r # rs) s = relation_assembler env rs (relation_step env r s)"

subsection \<open>Way assembler\<close>

text \<open>
  \<open>Skip\<close> is \<^verbatim>\<open>continue\<close>: the rest of the loop body is not run. \<open>Proceed\<close> goes on
  with the next statement of the body.
\<close>

datatype Flow = Skip State | Proceed State

text \<open>
  Lines 334 to 352. \<^verbatim>\<open>way := element.Way(*w)\<close> copies the struct, so the geometry is
  assigned to the copy and \<open>w\<close> itself is what the later statements see.
\<close>

definition line_string_branch :: "Env \<Rightarrow> Way \<Rightarrow> State \<Rightarrow> Flow" where
  "line_string_branch env w s =
     (let matches = LineStringMatcher env (WayElem w)
      in if length matches > 0 then
           (let way = w
            in case LineStringWKB env (Nodes way) of
                 Inl e \<Rightarrow> Skip (log_geom_error e s)
               | Inr g \<Rightarrow>
                   (let way1 = way\<lparr>WayElem := (WayElem way)\<lparr>Geom := Some g\<rparr>\<rparr>
                    in Proceed (insert_matches matches (WayElem way1) s)))
         else Proceed s)"

text \<open>Lines 353 to 371.\<close>

definition polygon_branch :: "Env \<Rightarrow> Way \<Rightarrow> State \<Rightarrow> Flow" where
  "polygon_branch env w s =
     (if IsClosed w then
        (let matches = PolygonMatcher env (WayElem w)
         in if length matches > 0 then
              (let way = w
               in case PolygonWKB env (Nodes way) of
                    Inl e \<Rightarrow> Skip (log_geom_error e s)
                  | Inr g \<Rightarrow>
                      (let way1 = way\<lparr>WayElem := (WayElem way)\<lparr>Geom := Some g\<rparr>\<rparr>
                       in Proceed (insert_matches matches (WayElem way1) s)))
            else Proceed s)
      else Proceed s)"

text \<open>
  The body of \<^verbatim>\<open>for w := range way\<close>, run by each worker. \<open>diff\<close> is the flag
  \<^verbatim>\<open>*diff\<close>.
\<close>

definition way_step :: "Env \<Rightarrow> bool \<Rightarrow> Way \<Rightarrow> State \<Rightarrow> State" where
  "way_step env diff w s =
     (let ((is_ins, err), s1) = IsInserted (ElemId (WayElem w)) s
      in case err of
           Some e \<Rightarrow> s1\<lparr>logged := logged s1 @ [e]\<rparr>
         | None \<Rightarrow>
             if is_ins then s1
             else
               (let (ferr, w1) = FillWay env w;
                    s2 = emit (CoordsFillWay (ElemId (WayElem w))) s1
                in case ferr of
                     Some e \<Rightarrow> s2
                   | None \<Rightarrow>
                       (let w2 = w1\<lparr>Nodes := NodesToMerc env (Nodes w1)\<rparr>
                        in case line_string_branch env w2 s2 of
                             Skip s3 \<Rightarrow> s3
                           | Proceed s3 \<Rightarrow>
                               (case polygon_branch env w2 s3 of
                                  Skip s4 \<Rightarrow> s4
                                | Proceed s4 \<Rightarrow>
                                    if diff then emit (DiffCoordsAddFromWay w2) s4 else s4))))"

text \<open>
  The workers share one channel; each way is handled by one of them. The interleaving of
  the workers is not modelled: the ways are taken in the order the channel delivers them.
\<close>

fun way_assembler :: "Env \<Rightarrow> bool \<Rightarrow> Way list \<Rightarrow> State \<Rightarrow> State" where
  "way_assembler env diff [] s = s"
| "way_assembler env diff (w # ws) s = way_assembler env diff ws (way_step env diff w s)"

subsection \<open>Node assembler\<close>

definition node_step :: "Env \<Rightarrow> Node \<Rightarrow> State \<Rightarrow> State" where
  "node_step env n s =
     (let matches = PointMatcher env (NodeElem n)
      in if length matches > 0 then
           (let n1 = NodeToMerc env n
            in case PointWKB env n1 of
                 Inl e \<Rightarrow> log_geom_error e s
               | Inr g \<Rightarrow>
                   insert_matches matches (NodeElem (n1\<lparr>NodeElem := (NodeElem n1)\<lparr>Geom := Some g\<rparr>\<rparr>)) s)
         else s)"

fun node_assembler :: "Env \<Rightarrow> Node list \<Rightarrow> State \<Rightarrow> State" where
  "node_assembler env [] s = s"
| "node_assembler env (n # ns) s = node_assembler env ns (node_step env n s)"

section \<open>Package initialisation\<close>

text \<open>
  The process environment. \<^verbatim>\<open>os.Getenv\<close> returns the empty string for a variable that
  is not set.
\<close>

type_synonym environ = "string \<rightharpoonup> string"

definition Getenv :: "environ \<Rightarrow> string \<Rightarrow> string" where
  "Getenv environ key = (case environ key of None \<Rightarrow> [] | Some v \<Rightarrow> v)"

text \<open>
  \<^verbatim>\<open>strconv.ParseInt(s, 10, bitSize)\<close> of the Go library, for base 10. \<open>ParseUint\<close>
  reads the digits from the left and stops at the first character that is no decimal
  digit (code 48 to 57; syntax error, value 0) or at the first overflow (range error, largest value).
  \<open>ParseInt\<close> takes an optional sign off, returns 0 on a syntax error and the nearest
  bound of the signed range on a range error.
\<close>

datatype NumError = ErrSyntax | ErrRange

definition digit :: "char \<Rightarrow> int option" where
  "digit c =
     (if (48::nat) \<le> of_char c \<and> (of_char c :: nat) \<le> 57
      then Some (int (of_char c) - 48) else None)"

fun ParseUint_loop :: "int \<Rightarrow> string \<Rightarrow> int \<Rightarrow> int \<times> NumError option" where
  "ParseUint_loop maxVal [] n = (n, None)"
| "ParseUint_loop maxVal (c # cs) n =
     (case digit c of
        None \<Rightarrow> (0, Some ErrSyntax)
      | Some d \<Rightarrow>
          if n \<ge> (2 ^ 64 - 1) div 10 + 1 then (maxVal, Some ErrRange)
          else if n * 10 + d > maxVal then (maxVal, Some ErrRange)
          else ParseUint_loop maxVal cs (n * 10 + d))"

definition ParseUint :: "string \<Rightarrow> nat \<Rightarrow> int \<times> NumError option" where
  "ParseUint s bitSize =
     (if s = [] then (0, Some ErrSyntax) else ParseUint_loop (2 ^ bitSize - 1) s 0)"

definition ParseInt :: "string \<Rightarrow> nat \<Rightarrow> int \<times> NumError option" where
  "ParseInt s bitSize =
     (if s = [] then (0, Some ErrSyntax)
      else
        (let neg = (hd s = CHR ''-'');
             digits = (if hd s = CHR ''+'' \<or> hd s = CHR ''-'' then tl s else s);
             (un, err) = ParseUint digits bitSize;
             cutoff = (2::int) ^ (bitSize - 1)
         in if err = Some ErrSyntax then (0, err)
            else if \<not> neg \<and> un \<ge> cutoff then (cutoff - 1, Some ErrRange)
            else if neg \<and> un > cutoff then (- cutoff, Some ErrRange)
            else (if neg then - un else un, None)))"



text \<open>The package variables set by \<^verbatim>\<open>init\<close>.\<close>

record Globals =
  skipCoords :: bool
  skipNodes :: bool
  skipWays :: bool
  dbImportBatchSize :: int

text \<open>
  \<^verbatim>\<open>func init()\<close>. The error of \<^verbatim>\<open>ParseInt\<close> is discarded (\<^verbatim>\<open>_\<close>); a value of 0
  is replaced by 4096.
\<close>

definition init :: "environ \<Rightarrow> Globals" where
  "init environ =
     (let (n, err) = ParseInt (Getenv environ ''GOPOSM_DBIMPORT_BATCHSIZE'') 32
      in \<lparr>skipCoords = (Getenv environ ''GOPOSM_SKIP_COORDS'' \<noteq> []),
          skipNodes = (Getenv environ ''GOPOSM_SKIP_NODES'' \<noteq> []),
          skipWays = (Getenv environ ''GOPOSM_SKIP_WAYS'' \<noteq> []),
          dbImportBatchSize = (if n = 0 then 4096 else n)\<rparr>)"

section \<open>The insert buffer\<close>





section \<open>The read phase\<close>

text \<open>
  What \<^verbatim>\<open>main\<close> gets from outside besides the collaborators of the write phase: the
  batches the parse workers send on the four channels, the tag filters of the mapping,
  what the iterators of the cache deliver, and the results of the calls that can end the
  run (\<open>None\<close>: no error).
\<close>

record Input =
  CoordBatches :: "Node list list"
  NodeBatches :: "Node list list"
  WayBatches :: "Way list list"
  RelationBatches :: "Relation list list"
  WayTagFilter :: "tags \<Rightarrow> tags"
  NodeTagFilter :: "tags \<Rightarrow> tags"
  RelationTagFilter :: "tags \<Rightarrow> tags"
  IterRelations :: "Relation list"
  IterWays :: "Way list"
  IterNodes :: "Node list"
  CreateProfileErr :: "error option"
  ParseDurationErr :: "error option"
  CacheExists :: bool
  CacheRemoveErr :: "error option"
  CacheOpenErr :: "error option"
  NewMappingErr :: "error option"
  DiffCacheRemoveErr :: "error option"
  DiffCacheOpenErr :: "error option"
  DatabaseOpenErr :: "error option"
  DatabaseInitErr :: "error option"

text \<open>
  Modelled from the spec: the \<open>put\<close> operations of the stores of package \<^verbatim>\<open>cache\<close>,
  which is not part of \<^verbatim>\<open>goposm.go\<close>. A store is keyed by id and \<open>put\<close> writes the
  batch; the node store keeps only nodes that still have a tag and returns the number
  of nodes it kept.
\<close>

definition PutCoords :: "Node list \<Rightarrow> State \<Rightarrow> State" where
  "PutCoords nds s =
     emit (CoordsPutCoords nds)
       (s\<lparr>CoordsStore := fold (\<lambda>n m. m(ElemId (NodeElem n) \<mapsto> n)) nds (CoordsStore s)\<rparr>)"

definition PutNodes :: "Node list \<Rightarrow> State \<Rightarrow> nat \<times> State" where
  "PutNodes nds s =
     (let kept = filter (\<lambda>n. Tags (NodeElem n) \<noteq> []) nds
      in (length kept,
          emit (NodesPutNodes nds)
            (s\<lparr>NodesStore := fold (\<lambda>n m. m(ElemId (NodeElem n) \<mapsto> n)) kept (NodesStore s)\<rparr>)))"

definition PutWays :: "Way list \<Rightarrow> State \<Rightarrow> State" where
  "PutWays ws s =
     emit (WaysPutWays ws)
       (s\<lparr>WaysStore := fold (\<lambda>w m. m(ElemId (WayElem w) \<mapsto> w)) ws (WaysStore s)\<rparr>)"

definition PutRelations :: "Relation list \<Rightarrow> State \<Rightarrow> State" where
  "PutRelations rels s =
     emit (RelationsPutRelations rels)
       (s\<lparr>RelationsStore := fold (\<lambda>r m. m(ElemId (RelElem r) \<mapsto> r)) rels (RelationsStore s)\<rparr>)"

text \<open>\<^verbatim>\<open>m.Filter(&e.Tags)\<close>: the filter rewrites the tags in place.\<close>

definition Filter :: "(tags \<Rightarrow> tags) \<Rightarrow> OSMElem \<Rightarrow> OSMElem" where
  "Filter f e = e\<lparr>Tags := f (Tags e)\<rparr>"

text \<open>
  The bodies of the four writer loops of \<^verbatim>\<open>parse\<close> (lines 84 to 93, 101 to 107, 114
  to 120 and 128 to 137), each for one batch taken from its channel.
\<close>

definition way_writer :: "Globals \<Rightarrow> Input \<Rightarrow> Way list \<Rightarrow> State \<Rightarrow> State" where
  "way_writer g inp ws s =
     (if skipWays g then s
      else PutWays (map (\<lambda>w. w\<lparr>WayElem := Filter (WayTagFilter inp) (WayElem w)\<rparr>) ws) s)"

definition relation_writer :: "Globals \<Rightarrow> Input \<Rightarrow> Relation list \<Rightarrow> State \<Rightarrow> State" where
  "relation_writer g inp rels s =
     PutRelations (map (\<lambda>r. r\<lparr>RelElem := Filter (RelationTagFilter inp) (RelElem r)\<rparr>) rels) s"

definition coord_writer :: "Globals \<Rightarrow> Input \<Rightarrow> Node list \<Rightarrow> State \<Rightarrow> State" where
  "coord_writer g inp nds s = (if skipCoords g then s else PutCoords nds s)"

definition node_writer :: "Globals \<Rightarrow> Input \<Rightarrow> Node list \<Rightarrow> State \<Rightarrow> State" where
  "node_writer g inp nds s =
     (if skipNodes g then s
      else snd (PutNodes (map (\<lambda>n. n\<lparr>NodeElem := Filter (NodeTagFilter inp) (NodeElem n)\<rparr>) nds) s))"

text \<open>
  \<^verbatim>\<open>func parse\<close>. Every batch sent on a channel is taken by one worker of that channel
  before \<^verbatim>\<open>waitCounter.Wait()\<close> returns. The workers run concurrently; here the
  batches of a channel are handled in the order sent, and the channels one after the
  other. The four kinds of worker write to four different stores.
\<close>

definition parse :: "Globals \<Rightarrow> Input \<Rightarrow> State \<Rightarrow> State" where
  "parse g inp s =
     fold (node_writer g inp) (NodeBatches inp)
       (fold (coord_writer g inp) (CoordBatches inp)
          (fold (relation_writer g inp) (RelationBatches inp)
             (fold (way_writer g inp) (WayBatches inp) s)))"

text \<open>The events that are a \<open>put\<close> on the coord, node and way store.\<close>

fun is_coords_put :: "Event \<Rightarrow> bool" where
  "is_coords_put (CoordsPutCoords nds) = True"
| "is_coords_put e = False"

fun is_nodes_put :: "Event \<Rightarrow> bool" where
  "is_nodes_put (NodesPutNodes nds) = True"
| "is_nodes_put e = False"

fun is_ways_put :: "Event \<Rightarrow> bool" where
  "is_ways_put (WaysPutWays ws) = True"
| "is_ways_put e = False"

section \<open>The function main\<close>

text \<open>
  The command line flags; \<open>read_flag\<close>, \<open>write_flag\<close> and \<open>diff_flag\<close> are the flags
  \<^verbatim>\<open>read\<close>, \<^verbatim>\<open>write\<close> and \<^verbatim>\<open>diff\<close>.
\<close>

record Flags =
  cpuprofile :: string
  memprofile :: string
  cachedir :: string
  overwritecache :: bool
  appendcache :: bool
  read_flag :: string
  write_flag :: bool
  connection :: string
  diff_flag :: bool
  mappingFile :: string

text \<open>
  \<open>Fatal\<close> is a run ended by \<^verbatim>\<open>log.Fatal\<close>, with the state reached; deferred calls are
  not run then. \<open>Completed\<close> is a run that returned from \<^verbatim>\<open>main\<close>.
\<close>

datatype Outcome = Fatal error State | Completed State

fun state_of :: "Outcome \<Rightarrow> State" where
  "state_of (Fatal e s) = s"
| "state_of (Completed s) = s"

text \<open>\<^verbatim>\<open>if err != nil { log.Fatal(err) }\<close>, and sequencing of steps that may end the run.\<close>

fun fatal_if :: "error option \<Rightarrow> State \<Rightarrow> Outcome" where
  "fatal_if None s = Completed s"
| "fatal_if (Some e) s = Fatal e s"

fun and_then :: "Outcome \<Rightarrow> (State \<Rightarrow> Outcome) \<Rightarrow> Outcome" where
  "and_then (Fatal e s) f = Fatal e s"
| "and_then (Completed s) f = f s"

text \<open>Lines 168 to 192: the profiles. The separator of \<^verbatim>\<open>memprofile\<close> is \<open>:\<close>.\<close>

definition setup_profiles :: "Flags \<Rightarrow> Input \<Rightarrow> State \<Rightarrow> Outcome" where
  "setup_profiles fl inp s =
     and_then (fatal_if (if cpuprofile fl \<noteq> [] then CreateProfileErr inp else None) s)
       (fatal_if (if memprofile fl \<noteq> [] \<and> CHR '':'' \<in> set (memprofile fl)
                  then ParseDurationErr inp else None))"

text \<open>Lines 194 to 219: the cache is removed or kept, then opened; the mapping is read.\<close>

definition open_cache :: "Flags \<Rightarrow> Input \<Rightarrow> State \<Rightarrow> Outcome" where
  "open_cache fl inp s =
     and_then
       (if read_flag fl \<noteq> [] \<and> CacheExists inp then
          (if overwritecache fl then fatal_if (CacheRemoveErr inp) (emit CacheRemove s)
           else if \<not> appendcache fl
             then Fatal (OtherError ''cache already exists use -appendcache or -overwritecache'') s
           else Completed s)
        else Completed s)
       (\<lambda>s1. and_then (fatal_if (CacheOpenErr inp) (emit CacheOpen s1))
                (fatal_if (NewMappingErr inp)))"

text \<open>Lines 221 to 227.\<close>

definition read_phase :: "Flags \<Rightarrow> Globals \<Rightarrow> Input \<Rightarrow> State \<Rightarrow> State" where
  "read_phase fl g inp s =
     (if read_flag fl \<noteq> [] then
        emit CoordsFlush
          (emit (CoordsSetLinearImport False)
             (parse g inp (emit (CoordsSetLinearImport True) s)))
      else s)"

text \<open>
  Lines 229 to 413. The rows go to the insert buffer in the order of \<open>rows\<close>; closing the
  buffer and the writer changes neither the caches nor the rows handed over.
\<close>

definition write_phase :: "Flags \<Rightarrow> Env \<Rightarrow> Input \<Rightarrow> State \<Rightarrow> Outcome" where
  "write_phase fl env inp s =
     (if write_flag fl then
        and_then (fatal_if (DiffCacheRemoveErr inp) (emit DiffCacheRemove s))
          (\<lambda>s1. and_then (fatal_if (DiffCacheOpenErr inp) (emit DiffCacheOpen s1))
            (\<lambda>s2. and_then (fatal_if (DatabaseOpenErr inp) s2)
              (\<lambda>s3. and_then (fatal_if (DatabaseInitErr inp) s3)
                (\<lambda>s4.
                   (let s5 = relation_assembler env (IterRelations inp) (emit RelationsIter s4);
                        s6 = way_assembler env (diff_flag fl) (IterWays inp) (emit WaysIter s5);
                        s7 = emit DiffCoordsClose s6;
                        s8 = node_assembler env (IterNodes inp) (emit NodesIter s7)
                    in Completed s8)))))
      else Completed s)"

text \<open>\<^verbatim>\<open>func main\<close>; the deferred \<^verbatim>\<open>osmCache.Close()\<close> runs when \<^verbatim>\<open>main\<close> returns.\<close>

definition main :: "Flags \<Rightarrow> Globals \<Rightarrow> Env \<Rightarrow> Input \<Rightarrow> State \<Rightarrow> Outcome" where
  "main fl g env inp s =
     and_then (setup_profiles fl inp s)
       (\<lambda>s1. and_then (open_cache fl inp s1)
         (\<lambda>s2. and_then (write_phase fl env inp (read_phase fl g inp s2))
           (\<lambda>s3. Completed (emit CacheClose s3))))"

section \<open>The protocol of the coord store\<close>

text \<open>
  The spec's rule for the coord store, as a monitor over the calls of a run. The mode is
  a pair: linear-import mode is on, and \<open>Flush\<close> has been called since the last batch was
  written. A batch may be written in linear-import mode only; an \<open>iter\<close> or \<open>fill\<close> on the
  cache needs linear-import mode off and the store flushed. \<open>None\<close> is a violation.
\<close>

fun is_read :: "Event \<Rightarrow> bool" where
  "is_read (CoordsFillWay i) = True"
| "is_read WaysFillMembers = True"
| "is_read WaysIter = True"
| "is_read RelationsIter = True"
| "is_read NodesIter = True"
| "is_read e = False"

type_synonym coords_mode = "bool \<times> bool"

fun protocol_step :: "coords_mode \<Rightarrow> Event \<Rightarrow> coords_mode option" where
  "protocol_step (lin, flushed) (CoordsSetLinearImport b) = Some (b, flushed)"
| "protocol_step (lin, flushed) (CoordsPutCoords nds) =
     (if lin then Some (lin, False) else None)"
| "protocol_step (lin, flushed) CoordsFlush = Some (lin, True)"
| "protocol_step (lin, flushed) e =
     (if is_read e \<and> (lin \<or> \<not> flushed) then None else Some (lin, flushed))"

fun run_protocol :: "coords_mode \<Rightarrow> Event list \<Rightarrow> coords_mode option" where
  "run_protocol m [] = Some m"
| "run_protocol m (e # es) =
     (case protocol_step m e of None \<Rightarrow> None | Some m1 \<Rightarrow> run_protocol m1 es)"

text \<open>The calls on the diff cache.\<close>

fun is_diff_event :: "Event \<Rightarrow> bool" where
  "is_diff_event DiffCacheRemove = True"
| "is_diff_event DiffCacheOpen = True"
| "is_diff_event (DiffCoordsAddFromWay w) = True"
| "is_diff_event DiffCoordsClose = True"
| "is_diff_event e = False"

section \<open>Sample inputs\<close>

text \<open>
  A small mapping and cache used to run the definitions: ways tagged \<open>highway\<close> are
  line strings, elements tagged \<open>building\<close> are polygons, nodes tagged \<open>amenity\<close>
  are points. Coord \<open>0\<close> and way \<open>0\<close> are missing from the cache, negative ids make the
  cache fail with an error other than \<open>NotFound\<close>. Way \<open>i\<close> of the ways cache has the
  node ids \<open>[i + 1, i - 2]\<close>.
\<close>

definition has_key :: "string \<Rightarrow> OSMElem \<Rightarrow> bool" where
  "has_key k e = (k \<in> fst ` set (Tags e))"

definition sample_row :: "OSMElem \<Rightarrow> row" where
  "sample_row e = [IntV (ElemId e), GeomV (Geom e)]"

definition sample_matcher :: "string \<Rightarrow> string \<Rightarrow> OSMElem \<Rightarrow> Match list" where
  "sample_matcher k table e = (if has_key k e then [\<lparr>Table = table, Row = sample_row\<rparr>] else [])"

definition sample_coord :: "int \<Rightarrow> Node" where
  "sample_coord i = \<lparr>NodeElem = \<lparr>ElemId = i, Tags = [], Geom = None\<rparr>, Long = 1, Lat = 2\<rparr>"

definition sample_merc :: "Node \<Rightarrow> Node" where
  "sample_merc n = n\<lparr>Long := 10 * Long n, Lat := 10 * Lat n\<rparr>"

definition sample_FillWay :: "Way \<Rightarrow> error option \<times> Way" where
  "sample_FillWay w =
     (if \<exists>i \<in> set (Refs w). i < 0 then (Some (OtherError ''read failed''), w)
      else if 0 \<in> set (Refs w)
        then (Some NotFound, w\<lparr>Nodes := map sample_coord (takeWhile (\<lambda>i. i \<noteq> 0) (Refs w))\<rparr>)
      else (None, w\<lparr>Nodes := map sample_coord (Refs w)\<rparr>))"

definition sample_way :: "int \<Rightarrow> tags \<Rightarrow> int list \<Rightarrow> Way" where
  "sample_way i ts refs = \<lparr>WayElem = \<lparr>ElemId = i, Tags = ts, Geom = None\<rparr>, Refs = refs, Nodes = []\<rparr>"

definition sample_FillMembers :: "Member list \<Rightarrow> error option \<times> Member list" where
  "sample_FillMembers ms =
     (if \<exists>m \<in> set ms. Type m = WAY \<and> MemberId m < 0 then (Some (OtherError ''read failed''), ms)
      else (if \<exists>m \<in> set ms. Type m = WAY \<and> MemberId m = 0 then Some NotFound else None,
            map (\<lambda>m. if Type m = WAY \<and> MemberId m \<noteq> 0
                       then m\<lparr>MWay := Some (sample_way (MemberId m) [] [MemberId m + 1, MemberId m - 2])\<rparr>
                       else m) ms))"

definition sample_BuildRelation :: "Relation \<Rightarrow> error option \<times> Relation" where
  "sample_BuildRelation r =
     (if Members r = [] then (Some (LevelError 0 ''no members''), r)
      else if has_key ''broken'' (RelElem r) then (Some (OtherError ''invalid ring''), r)
      else (None, r\<lparr>RelElem := (RelElem r)\<lparr>Geom := Some [6, length (Members r)]\<rparr>\<rparr>))"

definition sample_LineStringWKB :: "Node list \<Rightarrow> error + geometry" where
  "sample_LineStringWKB ns =
     (if length ns < 2 then Inl (LevelError 0 ''too few points'')
      else if ElemId (NodeElem (ns ! 0)) = 13 then Inl (OtherError ''geometry library failure'')
      else Inr [2, length ns])"

definition sample_PolygonWKB :: "Node list \<Rightarrow> error + geometry" where
  "sample_PolygonWKB ns =
     (if length ns < 4 then Inl (LevelError 0 ''too few points'')
      else if ElemId (NodeElem (ns ! 0)) = ElemId (NodeElem (ns ! 1))
        then Inl (LevelError 1 ''degenerate ring'')
      else Inr [3, length ns])"

definition sample_env :: Env where
  "sample_env =
     \<lparr>FillMembers = sample_FillMembers,
      FillWay = sample_FillWay,
      NodesToMerc = map sample_merc,
      NodeToMerc = sample_merc,
      BuildRelation = sample_BuildRelation,
      PolygonMatcher = sample_matcher ''building'' ''buildings'',
      LineStringMatcher = sample_matcher ''highway'' ''roads'',
      PointMatcher = sample_matcher ''amenity'' ''poi'',
      LineStringWKB = sample_LineStringWKB,
      PolygonWKB = sample_PolygonWKB,
      PointWKB = (\<lambda>n. if Long n = 0 \<and> Lat n = 0 then Inl (OtherError ''null island'')
                      else Inr [1])\<rparr>"

definition empty_state :: State where
  "empty_state =
     \<lparr>rows = [], logged = [], printed = [], inserted = {}, trace = [],
      CoordsStore = Map.empty, NodesStore = Map.empty, WaysStore = Map.empty,
      RelationsStore = Map.empty\<rparr>"

definition sample_member :: "MemberType \<Rightarrow> int \<Rightarrow> Member" where
  "sample_member t i = \<lparr>MemberId = i, Type = t, Role = ''outer'', MWay = None\<rparr>"

definition sample_relation :: "int \<Rightarrow> tags \<Rightarrow> Member list \<Rightarrow> Relation" where
  "sample_relation i ts ms = \<lparr>RelElem = \<lparr>ElemId = i, Tags = ts, Geom = None\<rparr>, Members = ms\<rparr>"

definition sample_node :: "int \<Rightarrow> tags \<Rightarrow> real \<Rightarrow> real \<Rightarrow> Node" where
  "sample_node i ts x y = \<lparr>NodeElem = \<lparr>ElemId = i, Tags = ts, Geom = None\<rparr>, Long = x, Lat = y\<rparr>"

definition sample_input :: Input where
  "sample_input =
     \<lparr>CoordBatches = [ [sample_coord 1, sample_coord 2], [sample_coord 3] ],
      NodeBatches = [ [sample_node 1 [(''amenity'', ''cafe''), (''source'', ''survey'')] 10 50, sample_node 2 [] 1 2] ],
      WayBatches = [ [sample_way 100 [(''highway'', ''x'')] [1, 2] ] ],
      RelationBatches = [ [sample_relation 7 [(''building'', ''yes'')] [sample_member WAY 100] ] ],
      WayTagFilter = filter (\<lambda>t. fst t = ''highway'' \<or> fst t = ''building''),
      NodeTagFilter = filter (\<lambda>t. fst t = ''amenity''),
      RelationTagFilter = filter (\<lambda>t. fst t = ''building''),
      IterRelations = [sample_relation 7 [(''building'', ''yes'')] [sample_member WAY 3] ],
      IterWays = [sample_way 3 [] [4, 1], sample_way 100 [(''highway'', ''x'')] [1, 2] ],
      IterNodes = [sample_node 1 [(''amenity'', ''cafe'')] 10 50],
      CreateProfileErr = None,
      ParseDurationErr = None,
      CacheExists = False,
      CacheRemoveErr = None,
      CacheOpenErr = None,
      NewMappingErr = None,
      DiffCacheRemoveErr = None,
      DiffCacheOpenErr = None,
      DatabaseOpenErr = None,
      DatabaseInitErr = None\<rparr>"

definition sample_flags :: Flags where
  "sample_flags =
     \<lparr>cpuprofile = [], memprofile = [], cachedir = ''/tmp/goposm'', overwritecache = False,
      appendcache = False, read_flag = ''planet.osm.pbf'', write_flag = True, connection = ''postgis://localhost'',
      diff_flag = True, mappingFile = ''mapping.json''\<rparr>"

section \<open>Verified properties\<close>

lemmas sample_defs = sample_env_def sample_LineStringWKB_def sample_PolygonWKB_def sample_FillWay_def sample_FillMembers_def sample_BuildRelation_def
  sample_matcher_def sample_row_def has_key_def sample_coord_def sample_merc_def sample_way_def
  sample_member_def sample_relation_def sample_node_def empty_state_def
  sample_input_def sample_flags_def

subsection \<open>C2: geometry-builder errors\<close>

text \<open>
  Claim C2 says that on every geometry-builder error the entity is dropped. Way \<open>5\<close>
  below matches a line-string and a polygon rule and is closed; its line-string build
  succeeds and its polygon build fails. The polygon error is logged and the way yields
  no polygon row, but its line-string row has been handed to the insert buffer before
  and stays.
\<close>

theorem polygon_error_keeps_line_string_counterexample:
  "PolygonWKB sample_env
      (map (\<lambda>i. sample_merc (sample_coord i)) [4, 4, 6, 4]) = Inl (LevelError 1 ''degenerate ring'')
   \<and> way_step sample_env False
        (sample_way 5 [(''highway'', ''x''), (''building'', ''yes'')] [4, 4, 6, 4]) empty_state
       = empty_state\<lparr>rows := [(''roads'', [IntV 5, GeomV (Some [2, 4])])],
                      logged := [LevelError 1 ''degenerate ring''],
                      trace := [InsertedWaysIsInserted 5, CoordsFillWay 5]\<rparr>"
  by (simp add: sample_defs way_step_def IsInserted_def emit_def line_string_branch_def
      polygon_branch_def insert_matches_def log_geom_error_def IsClosed_def)

text \<open>
  Claim C2 as amended. At each of the four geometry builds (\<open>BuildRelation\<close>,
  \<open>LineStringWKB\<close>, \<open>PolygonWKB\<close>, \<open>PointWKB\<close>) an error \<open>e\<close> ends the work on the
  entity: the state the assembler goes on with is the state at the failing build, changed
  only by \<open>log_geom_error\<close>, and the assembler continues with the remaining entities.
  The error is dropped without a log line iff it has a level and that level is \<open>\<le> 0\<close>;
  otherwise (no level, or level \<open>> 0\<close>) it is appended to the log. No row of the failed
  geometry is emitted; rows emitted before the failing build (the line-string rows of a way
  whose polygon build fails) stay.
\<close>

theorem geometry_error_handling:
  "log_geom_error e s =
     (if (\<exists>l. Level e = Some l \<and> l \<le> 0) then s else s\<lparr>logged := logged s @ [e]\<rparr>)
   \<and> (FillMembers env (Members r) = (ferr, ms) \<and> (ferr = None \<or> ferr = Some NotFound) \<and>
      fill_members_coords env ms (emit WaysFillMembers s) = (msp, sf) \<and>
      BuildRelation env (r\<lparr>Members := msp\<rparr>) = (Some e, rb)
      \<longrightarrow> relation_assembler env (r # rs) s = relation_assembler env rs (log_geom_error e sf))
   \<and> (IsInserted (ElemId (WayElem w)) s = ((False, None), ti) \<and>
      FillWay env w = (None, wa) \<and>
      wb = wa\<lparr>Nodes := NodesToMerc env (Nodes wa)\<rparr> \<and>
      tf = emit (CoordsFillWay (ElemId (WayElem w))) ti \<and>
      LineStringMatcher env (WayElem wb) \<noteq> [] \<and>
      LineStringWKB env (Nodes wb) = Inl e
      \<longrightarrow> way_assembler env diff (w # ws) s = way_assembler env diff ws (log_geom_error e tf))
   \<and> (IsInserted (ElemId (WayElem w)) s = ((False, None), ti) \<and>
      FillWay env w = (None, wa) \<and>
      wb = wa\<lparr>Nodes := NodesToMerc env (Nodes wa)\<rparr> \<and>
      tf = emit (CoordsFillWay (ElemId (WayElem w))) ti \<and>
      line_string_branch env wb tf = Proceed tg \<and>
      IsClosed wb \<and> PolygonMatcher env (WayElem wb) \<noteq> [] \<and>
      PolygonWKB env (Nodes wb) = Inl e
      \<longrightarrow> way_assembler env diff (w # ws) s = way_assembler env diff ws (log_geom_error e tg))
   \<and> (PointMatcher env (NodeElem n) \<noteq> [] \<and> PointWKB env (NodeToMerc env n) = Inl e
      \<longrightarrow> node_assembler env (n # ns) s = node_assembler env ns (log_geom_error e s))"
proof (intro conjI impI)
  show "log_geom_error e s =
     (if (\<exists>l. Level e = Some l \<and> l \<le> 0) then s else s\<lparr>logged := logged s @ [e]\<rparr>)"
    by (cases e) (simp_all add: log_geom_error_def)
qed (auto simp: relation_step_def way_step_def line_string_branch_def polygon_branch_def node_step_def)

theorem geometry_error_handling_witness:
  "relation_assembler sample_env
     [sample_relation 7 [(''building'', ''yes''), (''broken'', ''1'')] [sample_member WAY 3] ] empty_state
     = empty_state\<lparr>logged := [OtherError ''invalid ring''], trace := [WaysFillMembers, CoordsFillWay 3]\<rparr>
   \<and> way_assembler sample_env True [sample_way 5 [(''highway'', ''x'')] [4] ] empty_state
     = empty_state\<lparr>trace := [InsertedWaysIsInserted 5, CoordsFillWay 5]\<rparr>
   \<and> way_assembler sample_env True
       [sample_way 5 [(''highway'', ''x''), (''building'', ''yes'')] [4, 4, 6, 4] ] empty_state
     = empty_state\<lparr>rows := [(''roads'', [IntV 5, GeomV (Some [2, 4])])],
                    logged := [LevelError 1 ''degenerate ring''],
                    trace := [InsertedWaysIsInserted 5, CoordsFillWay 5]\<rparr>
   \<and> node_assembler sample_env [sample_node 5 [(''amenity'', ''x'')] 0 0] empty_state
     = empty_state\<lparr>logged := [OtherError ''null island'']\<rparr>"
proof (intro conjI)
  let ?r = "sample_relation 7 [(''building'', ''yes''), (''broken'', ''1'')] [sample_member WAY 3]"
  let ?fm = "FillMembers sample_env (Members ?r)"
  let ?fc = "fill_members_coords sample_env (snd ?fm) (emit WaysFillMembers empty_state)"
  let ?br = "BuildRelation sample_env (?r\<lparr>Members := fst ?fc\<rparr>)"
  show "relation_assembler sample_env [?r] empty_state
     = empty_state\<lparr>logged := [OtherError ''invalid ring''], trace := [WaysFillMembers, CoordsFillWay 3]\<rparr>"
    using geometry_error_handling [where env = sample_env and r = ?r and rs = "[]" and s = empty_state
        and e = "OtherError ''invalid ring''" and ferr = None and ms = "snd ?fm"
        and msp = "fst ?fc" and sf = "snd ?fc" and rb = "snd ?br"]
    by (simp add: sample_defs fill_member_def emit_def log_geom_error_def)
next
  let ?w = "sample_way 5 [(''highway'', ''x'')] [4]"
  let ?w1 = "snd (FillWay sample_env ?w)"
  let ?w2 = "?w1\<lparr>Nodes := NodesToMerc sample_env (Nodes ?w1)\<rparr>"
  let ?t1 = "snd (IsInserted 5 empty_state)"
  show "way_assembler sample_env True [?w] empty_state
     = empty_state\<lparr>trace := [InsertedWaysIsInserted 5, CoordsFillWay 5]\<rparr>"
    using geometry_error_handling [where env = sample_env and w = ?w and ws = "[]" and s = empty_state
        and e = "LevelError 0 ''too few points''" and ti = ?t1 and wa = ?w1 and wb = ?w2
        and tf = "emit (CoordsFillWay 5) ?t1" and diff = True]
    by (simp add: sample_defs IsInserted_def emit_def log_geom_error_def)
next
  let ?w = "sample_way 5 [(''highway'', ''x''), (''building'', ''yes'')] [4, 4, 6, 4]"
  let ?w1 = "snd (FillWay sample_env ?w)"
  let ?w2 = "?w1\<lparr>Nodes := NodesToMerc sample_env (Nodes ?w1)\<rparr>"
  let ?t1 = "snd (IsInserted 5 empty_state)"
  let ?t2 = "emit (CoordsFillWay 5) ?t1"
  let ?t3 = "insert_matches (LineStringMatcher sample_env (WayElem ?w2))
               ((WayElem ?w2)\<lparr>Geom := Some [2, 4]\<rparr>) ?t2"
  show "way_assembler sample_env True [?w] empty_state
     = empty_state\<lparr>rows := [(''roads'', [IntV 5, GeomV (Some [2, 4])])],
                    logged := [LevelError 1 ''degenerate ring''],
                    trace := [InsertedWaysIsInserted 5, CoordsFillWay 5]\<rparr>"
    using geometry_error_handling [where env = sample_env and w = ?w and ws = "[]" and s = empty_state
        and e = "LevelError 1 ''degenerate ring''" and ti = ?t1 and wa = ?w1 and wb = ?w2
        and tf = ?t2 and tg = ?t3 and diff = True]
    by (simp add: sample_defs IsInserted_def emit_def log_geom_error_def line_string_branch_def
        insert_matches_def IsClosed_def)
next
  show "node_assembler sample_env [sample_node 5 [(''amenity'', ''x'')] 0 0] empty_state
     = empty_state\<lparr>logged := [OtherError ''null island'']\<rparr>"
    using geometry_error_handling [where env = sample_env and n = "sample_node 5 [(''amenity'', ''x'')] 0 0"
        and ns = "[]" and s = empty_state and e = "OtherError ''null island''"]
    by (simp add: sample_defs log_geom_error_def)
qed

subsection \<open>C3: a member way whose coords cannot be filled\<close>

lemma fill_member_fst_indep: "fst (fill_member env m s) = fst (fill_member env m t)"
  by (simp add: fill_member_def Let_def split: option.splits prod.splits error.splits)

lemma fill_members_coords_map:
  "fst (fill_members_coords env ms s) = map (\<lambda>m. fst (fill_member env m t)) ms"
proof (induction ms arbitrary: s)
  case Nil
  show ?case by simp
next
  case (Cons m ms)
  obtain ma sa where a: "fill_member env m s = (ma, sa)" by (cases "fill_member env m s")
  obtain mb sb where b: "fill_members_coords env ms sa = (mb, sb)"
    by (cases "fill_members_coords env ms sa")
  have "ma = fst (fill_member env m t)" using a fill_member_fst_indep [of env m s t] by simp
  moreover have "mb = map (\<lambda>m. fst (fill_member env m t)) ms" using Cons.IH [of sa] b by simp
  ultimately show ?case using a b by simp
qed

lemma rows_fill_member: "rows (snd (fill_member env m s)) = rows s"
  by (simp add: fill_member_def emit_def Let_def split: option.splits prod.splits error.splits)

lemma rows_fill_members_coords: "rows (snd (fill_members_coords env ms s)) = rows s"
proof (induction ms arbitrary: s)
  case Nil
  show ?case by simp
next
  case (Cons m ms)
  obtain ma sa where a: "fill_member env m s = (ma, sa)" by (cases "fill_member env m s")
  obtain mb sb where b: "fill_members_coords env ms sa = (mb, sb)"
    by (cases "fill_members_coords env ms sa")
  show ?case using Cons.IH [of sa] rows_fill_member [of env m s] a b by simp
qed

text \<open>
  Claim C3 says that a way member whose coord fill fails is skipped and contributes no
  projected coordinates. For the error \<open>NotFound\<close> the loop does not skip: way \<open>2\<close> of
  the sample cache refers to the missing coord \<open>0\<close>, \<open>FillWay\<close> returns \<open>NotFound\<close>
  leaving the coords found so far, and the member handed to the geometry build carries
  these coords projected.
\<close>

theorem member_fill_notfound_counterexample:
  "MWay (hd (snd (FillMembers sample_env [sample_member WAY 2]))) = Some (sample_way 2 [] [3, 0])
   \<and> FillWay sample_env (sample_way 2 [] [3, 0])
       = (Some NotFound, (sample_way 2 [] [3, 0])\<lparr>Nodes := [sample_coord 3]\<rparr>)
   \<and> fst (fill_members_coords sample_env (snd (FillMembers sample_env [sample_member WAY 2])) empty_state)
       = [(sample_member WAY 2)
            \<lparr>MWay := Some ((sample_way 2 [] [3, 0])\<lparr>Nodes := NodesToMerc sample_env [sample_coord 3]\<rparr>)\<rparr>]
   \<and> NodesToMerc sample_env [sample_coord 3] \<noteq> [sample_coord 3]
   \<and> NodesToMerc sample_env [sample_coord 3] \<noteq> []"
  by (simp add: sample_defs fill_member_def emit_def)

text \<open>
  Claim C3 as amended. A fill error other than \<open>NotFound\<close> is printed and the member's
  projection is skipped; \<open>NotFound\<close> is passed over in silence and the member is still
  projected, with the coords the fill left. Either way every member of the list is
  handled by \<open>fill_member\<close>, the geometry build runs on the relation with all its
  members, and when it succeeds one row per polygon match is emitted.
\<close>

theorem member_fill_failure:
  "(MWay m = Some w \<and> FillWay env w = (Some e, wa) \<and> e \<noteq> NotFound \<longrightarrow>
      fill_member env m s =
        (m\<lparr>MWay := Some wa\<rparr>,
         (emit (CoordsFillWay (ElemId (WayElem w))) s)\<lparr>printed := printed s @ [e]\<rparr>))
   \<and> (MWay m = Some w \<and> FillWay env w = (Some NotFound, wa) \<longrightarrow>
      fill_member env m s =
        (m\<lparr>MWay := Some (wa\<lparr>Nodes := NodesToMerc env (Nodes wa)\<rparr>)\<rparr>,
         emit (CoordsFillWay (ElemId (WayElem w))) s))
   \<and> fst (fill_members_coords env ms s) = map (\<lambda>m. fst (fill_member env m t)) ms
   \<and> (FillMembers env (Members r) = (ferr, ms) \<and> (ferr = None \<or> ferr = Some NotFound) \<and>
      BuildRelation env (r\<lparr>Members := map (\<lambda>m. fst (fill_member env m t)) ms\<rparr>) = (None, rb) \<longrightarrow>
      rows (relation_step env r s) =
        rows s @ map (\<lambda>m. (Table m, Row m (RelElem rb))) (PolygonMatcher env (RelElem rb)))"
proof (intro conjI impI)
  assume "MWay m = Some w \<and> FillWay env w = (Some e, wa) \<and> e \<noteq> NotFound"
  then show "fill_member env m s =
        (m\<lparr>MWay := Some wa\<rparr>,
         (emit (CoordsFillWay (ElemId (WayElem w))) s)\<lparr>printed := printed s @ [e]\<rparr>)"
    by (cases e) (simp_all add: fill_member_def emit_def)
next
  assume "MWay m = Some w \<and> FillWay env w = (Some NotFound, wa)"
  then show "fill_member env m s =
        (m\<lparr>MWay := Some (wa\<lparr>Nodes := NodesToMerc env (Nodes wa)\<rparr>)\<rparr>,
         emit (CoordsFillWay (ElemId (WayElem w))) s)"
    by (simp add: fill_member_def)
next
  show "fst (fill_members_coords env ms s) = map (\<lambda>m. fst (fill_member env m t)) ms"
    by (rule fill_members_coords_map)
next
  let ?sa = "emit WaysFillMembers s"
  let ?ms = "map (\<lambda>m. fst (fill_member env m t)) ms"
  assume h: "FillMembers env (Members r) = (ferr, ms) \<and> (ferr = None \<or> ferr = Some NotFound) \<and>
      BuildRelation env (r\<lparr>Members := ?ms\<rparr>) = (None, rb)"
  obtain sb where fc: "fill_members_coords env ms ?sa = (?ms, sb)"
    using fill_members_coords_map [of env ms ?sa t] by (cases "fill_members_coords env ms ?sa") simp
  have "rows sb = rows s"
    using rows_fill_members_coords [of env ms ?sa] fc by (simp add: emit_def)
  then show "rows (relation_step env r s) =
        rows s @ map (\<lambda>m. (Table m, Row m (RelElem rb))) (PolygonMatcher env (RelElem rb))"
    using h fc by (auto simp: relation_step_def insert_matches_def PutMembers_def emit_def Let_def)
qed


theorem member_fill_failure_witness:
  "fill_member sample_env ((sample_member WAY 1)\<lparr>MWay := Some (sample_way 1 [] [2, - 1])\<rparr>) empty_state
     = ((sample_member WAY 1)\<lparr>MWay := Some (sample_way 1 [] [2, - 1])\<rparr>,
        empty_state\<lparr>printed := [OtherError ''read failed''], trace := [CoordsFillWay 1]\<rparr>)
   \<and> fill_member sample_env ((sample_member WAY 2)\<lparr>MWay := Some (sample_way 2 [] [3, 0])\<rparr>) empty_state
     = ((sample_member WAY 2)
          \<lparr>MWay := Some ((sample_way 2 [] [3, 0])\<lparr>Nodes := [sample_merc (sample_coord 3)]\<rparr>)\<rparr>,
        empty_state\<lparr>trace := [CoordsFillWay 2]\<rparr>)
   \<and> rows (relation_step sample_env
        (sample_relation 7 [(''building'', ''yes'')]
           [sample_member WAY 1, sample_member WAY 2, sample_member NODE 9, sample_member WAY 3])
        empty_state)
     = [(''buildings'', [IntV 7, GeomV (Some [6, 4])])]"
proof (intro conjI)
  let ?w = "sample_way 1 [] [2, - 1]"
  show "fill_member sample_env ((sample_member WAY 1)\<lparr>MWay := Some ?w\<rparr>) empty_state
     = ((sample_member WAY 1)\<lparr>MWay := Some ?w\<rparr>,
        empty_state\<lparr>printed := [OtherError ''read failed''], trace := [CoordsFillWay 1]\<rparr>)"
    using member_fill_failure [where env = sample_env and m = "(sample_member WAY 1)\<lparr>MWay := Some ?w\<rparr>"
        and w = ?w and e = "OtherError ''read failed''" and wa = ?w and s = empty_state]
    by (simp add: sample_defs emit_def)
next
  let ?w = "sample_way 2 [] [3, 0]"
  show "fill_member sample_env ((sample_member WAY 2)\<lparr>MWay := Some ?w\<rparr>) empty_state
     = ((sample_member WAY 2)\<lparr>MWay := Some (?w\<lparr>Nodes := [sample_merc (sample_coord 3)]\<rparr>)\<rparr>,
        empty_state\<lparr>trace := [CoordsFillWay 2]\<rparr>)"
    using member_fill_failure [where env = sample_env and m = "(sample_member WAY 2)\<lparr>MWay := Some ?w\<rparr>"
        and w = ?w and wa = "?w\<lparr>Nodes := [sample_coord 3]\<rparr>" and s = empty_state]
    by (simp add: sample_defs emit_def)
next
  let ?r = "sample_relation 7 [(''building'', ''yes'')]
           [sample_member WAY 1, sample_member WAY 2, sample_member NODE 9, sample_member WAY 3]"
  let ?ms = "snd (FillMembers sample_env (Members ?r))"
  let ?rb = "snd (BuildRelation sample_env
               (?r\<lparr>Members := map (\<lambda>m. fst (fill_member sample_env m empty_state)) ?ms\<rparr>))"
  show "rows (relation_step sample_env ?r empty_state) = [(''buildings'', [IntV 7, GeomV (Some [6, 4])])]"
    using member_fill_failure [where env = sample_env and r = ?r and ms = ?ms and ferr = None
        and rb = ?rb and s = empty_state and t = empty_state]
    by (simp add: sample_defs fill_member_def emit_def)
qed

subsection \<open>C9: a failed line-string build ends the work on the way\<close>

text \<open>
  Claim C9. When the line-string build fails for a way that matched a line-string rule,
  the step ends there: its result is the state at the failing build, changed only by
  \<open>log_geom_error\<close>. No row is emitted, nothing is recorded in the diff coord store
  whatever the flag \<open>diff\<close> is, and the result does not depend on the polygon matcher or
  the polygon builder (they are not run), also for a closed way.
\<close>

theorem line_string_failure_skips_rest:
  "ElemId (WayElem w) \<notin> inserted s \<and> FillWay env w = (None, wa) \<and>
   wb = wa\<lparr>Nodes := NodesToMerc env (Nodes wa)\<rparr> \<and>
   LineStringMatcher env (WayElem wb) \<noteq> [] \<and> LineStringWKB env (Nodes wb) = Inl e
   \<longrightarrow>
     way_step env diff w s =
       log_geom_error e (emit (CoordsFillWay (ElemId (WayElem w)))
                          (emit (InsertedWaysIsInserted (ElemId (WayElem w))) s))
   \<and> rows (way_step env diff w s) = rows s
   \<and> trace (way_step env diff w s) =
       trace s @ [InsertedWaysIsInserted (ElemId (WayElem w)), CoordsFillWay (ElemId (WayElem w))]
   \<and> way_step (env\<lparr>PolygonMatcher := pm, PolygonWKB := pw\<rparr>) diff w s = way_step env diff w s"
proof (intro impI)
  assume h: "ElemId (WayElem w) \<notin> inserted s \<and> FillWay env w = (None, wa) \<and>
   wb = wa\<lparr>Nodes := NodesToMerc env (Nodes wa)\<rparr> \<and>
   LineStringMatcher env (WayElem wb) \<noteq> [] \<and> LineStringWKB env (Nodes wb) = Inl e"
  let ?t = "emit (CoordsFillWay (ElemId (WayElem w))) (emit (InsertedWaysIsInserted (ElemId (WayElem w))) s)"
  have step: "way_step env diff w s = log_geom_error e ?t"
    using h by (auto simp: way_step_def IsInserted_def line_string_branch_def Let_def)
  have step2: "way_step (env\<lparr>PolygonMatcher := pm, PolygonWKB := pw\<rparr>) diff w s = log_geom_error e ?t"
    using h by (auto simp: way_step_def IsInserted_def line_string_branch_def Let_def)
  have r: "rows (log_geom_error e ?t) = rows s"
    by (simp add: log_geom_error_def emit_def split: option.splits)
  have t: "trace (log_geom_error e ?t) =
       trace s @ [InsertedWaysIsInserted (ElemId (WayElem w)), CoordsFillWay (ElemId (WayElem w))]"
    by (simp add: log_geom_error_def emit_def split: option.splits)
  show "way_step env diff w s = log_geom_error e ?t
   \<and> rows (way_step env diff w s) = rows s
   \<and> trace (way_step env diff w s) =
       trace s @ [InsertedWaysIsInserted (ElemId (WayElem w)), CoordsFillWay (ElemId (WayElem w))]
   \<and> way_step (env\<lparr>PolygonMatcher := pm, PolygonWKB := pw\<rparr>) diff w s = way_step env diff w s"
    using step step2 r t by simp
qed

theorem line_string_failure_skips_rest_witness:
  "IsClosed (sample_way 5 [(''highway'', ''x''), (''building'', ''yes'')] [13, 5, 6, 7, 13])
   \<and> PolygonMatcher sample_env (WayElem (sample_way 5 [(''highway'', ''x''), (''building'', ''yes'')] [13, 5, 6, 7, 13])) \<noteq> []
   \<and> way_step sample_env True (sample_way 5 [(''highway'', ''x''), (''building'', ''yes'')] [13, 5, 6, 7, 13]) empty_state
     = empty_state\<lparr>logged := [OtherError ''geometry library failure''],
                    trace := [InsertedWaysIsInserted 5, CoordsFillWay 5]\<rparr>"
proof -
  let ?w = "sample_way 5 [(''highway'', ''x''), (''building'', ''yes'')] [13, 5, 6, 7, 13]"
  let ?wa = "snd (FillWay sample_env ?w)"
  show ?thesis
    using line_string_failure_skips_rest [where env = sample_env and w = ?w and s = empty_state
        and wa = ?wa and wb = "?wa\<lparr>Nodes := NodesToMerc sample_env (Nodes ?wa)\<rparr>"
        and e = "OtherError ''geometry library failure''" and diff = True]
    by (simp add: sample_defs emit_def log_geom_error_def IsClosed_def)
qed

subsection \<open>C5: polygons are built for closed ways only\<close>

text \<open>
  Claim C5 ends with: a way with exactly 3 distinct nodes whose first id equals its last
  id is not closed and yields no polygon row. A node-id sequence with 3 distinct ids whose
  first id is also its last has at least 4 entries, so by the claim's own definition it
  is closed: the triangle \<open>[1, 2, 3, 1]\<close> is closed and a polygon row is emitted for it.
\<close>

theorem triangle_is_closed_counterexample:
  "length (remdups (Refs (sample_way 200 [(''building'', ''yes'')] [1, 2, 3, 1]))) = 3
   \<and> hd (Refs (sample_way 200 [(''building'', ''yes'')] [1, 2, 3, 1]))
       = last (Refs (sample_way 200 [(''building'', ''yes'')] [1, 2, 3, 1]))
   \<and> IsClosed (sample_way 200 [(''building'', ''yes'')] [1, 2, 3, 1])
   \<and> rows (way_step sample_env False (sample_way 200 [(''building'', ''yes'')] [1, 2, 3, 1]) empty_state)
       = [(''buildings'', [IntV 200, GeomV (Some [3, 4])])]"
  by (simp add: sample_defs IsClosed_def way_step_def IsInserted_def emit_def line_string_branch_def
      polygon_branch_def insert_matches_def)

text \<open>
  Claim C5 as amended. A way is closed iff its node-id sequence has at least 4 entries and
  its first id equals its last. For a way that is not closed the polygon branch does
  nothing: the rows of the step are those of the line-string branch alone. A way whose
  node-id sequence has fewer than 4 entries, such as 3 entries with first equal to last,
  is not closed.
\<close>

theorem polygon_only_for_closed_way:
  "IsClosed w = (length (Refs w) \<ge> 4 \<and> hd (Refs w) = last (Refs w))
   \<and> (length (Refs w) < 4 \<longrightarrow> \<not> IsClosed w)
   \<and> (\<not> IsClosed wb \<longrightarrow> polygon_branch env wb t = Proceed t)
   \<and> (ElemId (WayElem w) \<notin> inserted s \<and> FillWay env w = (None, wa) \<and>
      wb = wa\<lparr>Nodes := NodesToMerc env (Nodes wa)\<rparr> \<and> \<not> IsClosed wb \<longrightarrow>
      rows (way_step env diff w s) =
        rows (case line_string_branch env wb s of Skip x \<Rightarrow> x | Proceed x \<Rightarrow> x))"
proof (intro conjI impI)
  show "IsClosed w = (length (Refs w) \<ge> 4 \<and> hd (Refs w) = last (Refs w))"
  proof (cases "Refs w")
    case Nil
    then show ?thesis by (simp add: IsClosed_def)
  next
    case (Cons x xs)
    then show ?thesis by (simp add: IsClosed_def last_conv_nth)
  qed
next
  assume "length (Refs w) < 4"
  then show "\<not> IsClosed w" by (simp add: IsClosed_def)
next
  assume "\<not> IsClosed wb"
  then show "polygon_branch env wb t = Proceed t" by (simp add: polygon_branch_def)
next
  assume h: "ElemId (WayElem w) \<notin> inserted s \<and> FillWay env w = (None, wa) \<and>
      wb = wa\<lparr>Nodes := NodesToMerc env (Nodes wa)\<rparr> \<and> \<not> IsClosed wb"
  let ?t = "emit (CoordsFillWay (ElemId (WayElem w))) (emit (InsertedWaysIsInserted (ElemId (WayElem w))) s)"
  have a: "way_step env diff w s =
      (case line_string_branch env wb ?t of Skip x \<Rightarrow> x
       | Proceed x \<Rightarrow> if diff then emit (DiffCoordsAddFromWay wb) x else x)"
    using h by (auto simp: way_step_def IsInserted_def polygon_branch_def Let_def split: Flow.splits)
  have b: "rows (case line_string_branch env wb ?t of Skip x \<Rightarrow> x
       | Proceed x \<Rightarrow> if diff then emit (DiffCoordsAddFromWay wb) x else x)
     = rows (case line_string_branch env wb s of Skip x \<Rightarrow> x | Proceed x \<Rightarrow> x)"
    by (simp add: line_string_branch_def Let_def emit_def insert_matches_def log_geom_error_def
        split: sum.splits option.splits)
  show "rows (way_step env diff w s) =
        rows (case line_string_branch env wb s of Skip x \<Rightarrow> x | Proceed x \<Rightarrow> x)"
    using a b by simp
qed

theorem polygon_only_for_closed_way_witness:
  "\<not> IsClosed (sample_way 200 [(''building'', ''yes''), (''highway'', ''x'')] [1, 2, 1])
   \<and> polygon_branch sample_env (sample_way 200 [(''building'', ''yes''), (''highway'', ''x'')] [1, 2, 1]) empty_state
       = Proceed empty_state
   \<and> rows (way_step sample_env False (sample_way 200 [(''building'', ''yes''), (''highway'', ''x'')] [1, 2, 1]) empty_state)
       = [(''roads'', [IntV 200, GeomV (Some [2, 3])])]"
proof -
  let ?w = "sample_way 200 [(''building'', ''yes''), (''highway'', ''x'')] [1, 2, 1]"
  let ?wa = "snd (FillWay sample_env ?w)"
  let ?wb = "?wa\<lparr>Nodes := NodesToMerc sample_env (Nodes ?wa)\<rparr>"
  have c: "\<not> IsClosed ?w"
    using polygon_only_for_closed_way [where w = ?w] by (simp add: sample_defs)
  have "\<not> IsClosed ?wb" by (simp add: sample_defs IsClosed_def)
  then have p: "polygon_branch sample_env ?w empty_state = Proceed empty_state"
    using c polygon_only_for_closed_way [where wb = ?w and env = sample_env and t = empty_state]
    by simp
  have "rows (way_step sample_env False ?w empty_state) = [(''roads'', [IntV 200, GeomV (Some [2, 3])])]"
    using polygon_only_for_closed_way [where env = sample_env and w = ?w and s = empty_state
        and wa = ?wa and wb = ?wb and diff = False]
    by (simp add: sample_defs IsClosed_def line_string_branch_def insert_matches_def)
  then show ?thesis using c p by simp
qed

subsection \<open>C1: the inserted-ways marker\<close>

lemma inserted_fill_member: "inserted (snd (fill_member env m s)) = inserted s"
  by (simp add: fill_member_def emit_def Let_def split: option.splits prod.splits error.splits)

lemma inserted_fill_members_coords: "inserted (snd (fill_members_coords env ms s)) = inserted s"
proof (induction ms arbitrary: s)
  case Nil
  show ?case by simp
next
  case (Cons m ms)
  obtain ma sa where a: "fill_member env m s = (ma, sa)" by (cases "fill_member env m s")
  obtain mb sb where b: "fill_members_coords env ms sa = (mb, sb)"
    by (cases "fill_members_coords env ms sa")
  show ?case using Cons.IH [of sa] inserted_fill_member [of env m s] a b by simp
qed

lemma inserted_log_geom_error: "inserted (log_geom_error e s) = inserted s"
  by (simp add: log_geom_error_def split: option.splits)

lemma relation_step_inserted:
  "inserted (relation_step env r s) =
     inserted s \<union>
     {i. \<exists>ferr ms rb. FillMembers env (Members r) = (ferr, ms) \<and> (ferr = None \<or> ferr = Some NotFound) \<and>
          BuildRelation env (r\<lparr>Members := map (\<lambda>m. fst (fill_member env m t)) ms\<rparr>) = (None, rb) \<and>
          PolygonMatcher env (RelElem rb) \<noteq> [] \<and>
          (\<exists>m \<in> set (Members rb). Type m = WAY \<and> MemberId m = i)}"
proof -
  let ?sa = "emit WaysFillMembers s"
  obtain ferr ms where fm: "FillMembers env (Members r) = (ferr, ms)"
    by (cases "FillMembers env (Members r)")
  let ?ms = "map (\<lambda>m. fst (fill_member env m t)) ms"
  obtain sb where fc: "fill_members_coords env ms ?sa = (?ms, sb)"
    using fill_members_coords_map [of env ms ?sa t] by (cases "fill_members_coords env ms ?sa") simp
  have sb: "inserted sb = inserted s"
    using inserted_fill_members_coords [of env ms ?sa] fc by (simp add: emit_def)
  obtain berr rb where br: "BuildRelation env (r\<lparr>Members := ?ms\<rparr>) = (berr, rb)"
    by (cases "BuildRelation env (r\<lparr>Members := ?ms\<rparr>)")
  let ?C = "(ferr = None \<or> ferr = Some NotFound) \<and> berr = None \<and> PolygonMatcher env (RelElem rb) \<noteq> []"
  let ?M = "MemberId ` set (filter (\<lambda>m. Type m = WAY) (Members rb))"
  have pw: "\<And>i. (\<exists>ferr ms rb. FillMembers env (Members r) = (ferr, ms) \<and> (ferr = None \<or> ferr = Some NotFound) \<and>
          BuildRelation env (r\<lparr>Members := map (\<lambda>m. fst (fill_member env m t)) ms\<rparr>) = (None, rb) \<and>
          PolygonMatcher env (RelElem rb) \<noteq> [] \<and>
          (\<exists>m \<in> set (Members rb). Type m = WAY \<and> MemberId m = i))
      = (?C \<and> i \<in> ?M)"
  proof -
    fix i
    have m: "(i \<in> ?M) = (\<exists>m \<in> set (Members rb). Type m = WAY \<and> MemberId m = i)"
      by (simp add: image_iff) blast
    show "(\<exists>ferr ms rb. FillMembers env (Members r) = (ferr, ms) \<and> (ferr = None \<or> ferr = Some NotFound) \<and>
          BuildRelation env (r\<lparr>Members := map (\<lambda>m. fst (fill_member env m t)) ms\<rparr>) = (None, rb) \<and>
          PolygonMatcher env (RelElem rb) \<noteq> [] \<and>
          (\<exists>m \<in> set (Members rb). Type m = WAY \<and> MemberId m = i))
      = (?C \<and> i \<in> ?M)"
      unfolding m using fm br by simp
  qed
  have set_eq: "{i. \<exists>ferr ms rb. FillMembers env (Members r) = (ferr, ms) \<and> (ferr = None \<or> ferr = Some NotFound) \<and>
          BuildRelation env (r\<lparr>Members := map (\<lambda>m. fst (fill_member env m t)) ms\<rparr>) = (None, rb) \<and>
          PolygonMatcher env (RelElem rb) \<noteq> [] \<and>
          (\<exists>m \<in> set (Members rb). Type m = WAY \<and> MemberId m = i)}
      = (if ?C then ?M else {})"
    unfolding pw by (cases ?C) auto
  show ?thesis unfolding set_eq
  proof (cases "ferr = None \<or> ferr = Some NotFound")
    case False
    then obtain e where e: "ferr = Some e" "e \<noteq> NotFound" by (cases ferr) auto
    then have "relation_step env r s = (emit WaysFillMembers s)\<lparr>printed := printed (emit WaysFillMembers s) @ [e]\<rparr>"
      using fm by (cases e) (simp_all add: relation_step_def Let_def)
    then have "inserted (relation_step env r s) = inserted s" by (simp add: emit_def)
    then show "inserted (relation_step env r s) = inserted s \<union> (if ?C then ?M else {})"
      using e by simp
  next
    case tolerated: True
    have step: "relation_step env r s =
        (case berr of
           Some e \<Rightarrow> log_geom_error e sb
         | None \<Rightarrow>
             if PolygonMatcher env (RelElem rb) \<noteq> [] then
               snd (PutMembers (Members rb) (insert_matches (PolygonMatcher env (RelElem rb)) (RelElem rb) sb))
             else sb)"
      using tolerated
    proof
      assume "ferr = None"
      then show ?thesis using fm fc br
        by (simp add: relation_step_def PutMembers_def Let_def split: option.splits)
    next
      assume "ferr = Some NotFound"
      then show ?thesis using fm fc br
        by (simp add: relation_step_def PutMembers_def Let_def split: option.splits)
    qed
    have "inserted (relation_step env r s) = inserted s \<union> (if berr = None \<and> PolygonMatcher env (RelElem rb) \<noteq> [] then ?M else {})"
      unfolding step using sb
      by (simp add: inserted_log_geom_error PutMembers_def insert_matches_def emit_def split: option.splits)
    then show "inserted (relation_step env r s) = inserted s \<union> (if ?C then ?M else {})"
      using tolerated by simp
  qed
qed


lemma inserted_way_step: "inserted (way_step env diff w s) = inserted s"
  by (simp add: way_step_def IsInserted_def line_string_branch_def polygon_branch_def Let_def emit_def
      insert_matches_def inserted_log_geom_error split: prod.splits option.splits sum.splits)

lemma inserted_way_assembler: "inserted (way_assembler env diff ws s) = inserted s"
  by (induction ws arbitrary: s) (simp_all add: inserted_way_step)

lemma relation_assembler_inserted:
  "inserted (relation_assembler env rs s) =
     inserted s \<union>
     {i. \<exists>r \<in> set rs. \<exists>ferr ms rb.
          FillMembers env (Members r) = (ferr, ms) \<and> (ferr = None \<or> ferr = Some NotFound) \<and>
          BuildRelation env (r\<lparr>Members := map (\<lambda>m. fst (fill_member env m t)) ms\<rparr>) = (None, rb) \<and>
          PolygonMatcher env (RelElem rb) \<noteq> [] \<and>
          (\<exists>m \<in> set (Members rb). Type m = WAY \<and> MemberId m = i)}"
proof (induction rs arbitrary: s)
  case Nil
  show ?case by simp
next
  case (Cons r rs)
  show ?case
    unfolding relation_assembler.simps Cons.IH [of "relation_step env r s"]
      relation_step_inserted [of env r s t]
    by (simp only: set_simps bex_simps Collect_disj_eq Un_assoc Un_commute Un_left_commute)
qed
text \<open>
  Claim C1 says the marker holds exactly the way members of the relations whose tags match
  a polygon rule. Relation \<open>7\<close> below has the tag \<open>building\<close>, which the polygon rule
  matches, and the way member \<open>3\<close>; its geometry build fails, so the matcher is never
  asked and way \<open>3\<close> is not marked.
\<close>

theorem inserted_ways_counterexample:
  "PolygonMatcher sample_env
      (RelElem (sample_relation 7 [(''building'', ''yes''), (''broken'', ''1'')] [sample_member WAY 3])) \<noteq> []
   \<and> Type (sample_member WAY 3) = WAY \<and> MemberId (sample_member WAY 3) = 3
   \<and> fst (IsInserted 3 (relation_assembler sample_env
        [sample_relation 7 [(''building'', ''yes''), (''broken'', ''1'')] [sample_member WAY 3] ]
        empty_state)) = (False, None)"
  by (simp add: sample_defs relation_step_def fill_member_def emit_def log_geom_error_def IsInserted_def)

text \<open>
  Claim C1 as amended. After the relation assembler a way id is in the marker iff it was
  there before or it is the id of a way-typed member of a relation that got as far as the
  matcher and matched: its member fill returned no error other than \<open>NotFound\<close>, its
  geometry was built, and the polygon matcher returned a non-empty list for the built
  relation. The way assembler does not change the marker, and for a way whose id is in
  the marker its step only asks the marker: no row is emitted, no coords are filled,
  nothing is recorded for the diff.
\<close>

theorem inserted_ways_marker:
  "(i \<in> inserted (relation_assembler env rs s)) =
     (i \<in> inserted s \<or>
      (\<exists>r \<in> set rs. \<exists>ferr ms rb.
          FillMembers env (Members r) = (ferr, ms) \<and> (ferr = None \<or> ferr = Some NotFound) \<and>
          BuildRelation env (r\<lparr>Members := map (\<lambda>m. fst (fill_member env m t)) ms\<rparr>) = (None, rb) \<and>
          PolygonMatcher env (RelElem rb) \<noteq> [] \<and>
          (\<exists>m \<in> set (Members rb). Type m = WAY \<and> MemberId m = i)))
   \<and> inserted (way_assembler env diff ws s) = inserted s
   \<and> (ElemId (WayElem w) \<in> inserted s \<longrightarrow>
        way_step env diff w s = emit (InsertedWaysIsInserted (ElemId (WayElem w))) s
        \<and> rows (way_step env diff w s) = rows s)"
proof (intro conjI impI)
  show "(i \<in> inserted (relation_assembler env rs s)) =
     (i \<in> inserted s \<or>
      (\<exists>r \<in> set rs. \<exists>ferr ms rb.
          FillMembers env (Members r) = (ferr, ms) \<and> (ferr = None \<or> ferr = Some NotFound) \<and>
          BuildRelation env (r\<lparr>Members := map (\<lambda>m. fst (fill_member env m t)) ms\<rparr>) = (None, rb) \<and>
          PolygonMatcher env (RelElem rb) \<noteq> [] \<and>
          (\<exists>m \<in> set (Members rb). Type m = WAY \<and> MemberId m = i)))"
    unfolding relation_assembler_inserted [of env rs s t] by simp
next
  show "inserted (way_assembler env diff ws s) = inserted s"
    by (rule inserted_way_assembler)
next
  assume "ElemId (WayElem w) \<in> inserted s"
  then show "way_step env diff w s = emit (InsertedWaysIsInserted (ElemId (WayElem w))) s"
    by (simp add: way_step_def IsInserted_def)
next
  assume "ElemId (WayElem w) \<in> inserted s"
  then show "rows (way_step env diff w s) = rows s"
    by (simp add: way_step_def IsInserted_def emit_def)
qed


theorem inserted_ways_marker_witness:
  "3 \<in> inserted (relation_assembler sample_env
          [sample_relation 8 [(''building'', ''yes''), (''broken'', ''1'')] [sample_member WAY 5],
           sample_relation 7 [(''building'', ''yes'')] [sample_member WAY 3, sample_member NODE 9] ]
          empty_state)
   \<and> 5 \<notin> inserted (relation_assembler sample_env
          [sample_relation 8 [(''building'', ''yes''), (''broken'', ''1'')] [sample_member WAY 5],
           sample_relation 7 [(''building'', ''yes'')] [sample_member WAY 3, sample_member NODE 9] ]
          empty_state)
   \<and> way_step sample_env True (sample_way 3 [(''highway'', ''x'')] [4, 5])
        (empty_state\<lparr>inserted := {3}\<rparr>)
       = empty_state\<lparr>inserted := {3}, trace := [InsertedWaysIsInserted 3]\<rparr>"
proof (intro conjI)
  let ?rs = "[sample_relation 8 [(''building'', ''yes''), (''broken'', ''1'')] [sample_member WAY 5],
              sample_relation 7 [(''building'', ''yes'')] [sample_member WAY 3, sample_member NODE 9] ]"
  show "3 \<in> inserted (relation_assembler sample_env ?rs empty_state)"
    using inserted_ways_marker [where env = sample_env and rs = ?rs and s = empty_state and i = 3
        and t = empty_state]
    by (simp add: sample_defs fill_member_def emit_def)
  show "5 \<notin> inserted (relation_assembler sample_env ?rs empty_state)"
    using inserted_ways_marker [where env = sample_env and rs = ?rs and s = empty_state and i = 5
        and t = empty_state]
    by (simp add: sample_defs fill_member_def emit_def)
  show "way_step sample_env True (sample_way 3 [(''highway'', ''x'')] [4, 5]) (empty_state\<lparr>inserted := {3}\<rparr>)
       = empty_state\<lparr>inserted := {3}, trace := [InsertedWaysIsInserted 3]\<rparr>"
    using inserted_ways_marker [where env = sample_env and s = "empty_state\<lparr>inserted := {3}\<rparr>"
        and w = "sample_way 3 [(''highway'', ''x'')] [4, 5]" and diff = True]
    by (simp add: sample_defs emit_def)
qed

subsection \<open>C7: the skip flags\<close>

lemma fold_keeps:
  assumes "\<And>x s. Q (f x s) = Q s"
  shows "Q (fold f xs s) = Q s"
  using assms by (induction xs arbitrary: s) simp_all

lemma writers_keep_CoordsStore:
  "CoordsStore (way_writer g inp ws s) = CoordsStore s"
  "CoordsStore (relation_writer g inp rels s) = CoordsStore s"
  "CoordsStore (node_writer g inp nds s) = CoordsStore s"
  by (simp_all add: way_writer_def relation_writer_def node_writer_def PutWays_def PutRelations_def
      PutNodes_def emit_def Let_def)

lemma writers_keep_NodesStore:
  "NodesStore (way_writer g inp ws s) = NodesStore s"
  "NodesStore (relation_writer g inp rels s) = NodesStore s"
  "NodesStore (coord_writer g inp nds s) = NodesStore s"
  by (simp_all add: way_writer_def relation_writer_def coord_writer_def PutWays_def PutRelations_def
      PutCoords_def emit_def)

lemma writers_keep_WaysStore:
  "WaysStore (node_writer g inp nds s) = WaysStore s"
  "WaysStore (relation_writer g inp rels s) = WaysStore s"
  "WaysStore (coord_writer g inp nds s) = WaysStore s"
  by (simp_all add: node_writer_def relation_writer_def coord_writer_def PutNodes_def PutRelations_def
      PutCoords_def emit_def Let_def)

lemma writers_no_coords_put:
  "filter is_coords_put (trace (way_writer g inp ws s)) = filter is_coords_put (trace s)"
  "filter is_coords_put (trace (relation_writer g inp rels s)) = filter is_coords_put (trace s)"
  "filter is_coords_put (trace (node_writer g inp nds s)) = filter is_coords_put (trace s)"
  by (simp_all add: way_writer_def relation_writer_def node_writer_def PutWays_def PutRelations_def
      PutNodes_def emit_def Let_def)

lemma writers_no_nodes_put:
  "filter is_nodes_put (trace (way_writer g inp ws s)) = filter is_nodes_put (trace s)"
  "filter is_nodes_put (trace (relation_writer g inp rels s)) = filter is_nodes_put (trace s)"
  "filter is_nodes_put (trace (coord_writer g inp nds s)) = filter is_nodes_put (trace s)"
  by (simp_all add: way_writer_def relation_writer_def coord_writer_def PutWays_def PutRelations_def
      PutCoords_def emit_def)

lemma writers_no_ways_put:
  "filter is_ways_put (trace (node_writer g inp nds s)) = filter is_ways_put (trace s)"
  "filter is_ways_put (trace (relation_writer g inp rels s)) = filter is_ways_put (trace s)"
  "filter is_ways_put (trace (coord_writer g inp nds s)) = filter is_ways_put (trace s)"
  by (simp_all add: node_writer_def relation_writer_def coord_writer_def PutNodes_def PutRelations_def
      PutCoords_def emit_def Let_def)

lemma skipped_writers:
  "skipCoords g \<Longrightarrow> fold (coord_writer g inp) bs s = s"
  "skipNodes g \<Longrightarrow> fold (node_writer g inp) bs s = s"
  "skipWays g \<Longrightarrow> fold (way_writer g inp) ws s = s"
  by (induction bs arbitrary: s, simp_all add: coord_writer_def node_writer_def)
     (induction ws arbitrary: s, simp_all add: way_writer_def)

lemma parse_skip_coords:
  assumes "skipCoords g"
  shows "CoordsStore (parse g inp s) = CoordsStore s"
    and "filter is_coords_put (trace (parse g inp s)) = filter is_coords_put (trace s)"
  unfolding parse_def skipped_writers(1) [OF assms]
  by (simp_all add: fold_keeps [where Q = CoordsStore] writers_keep_CoordsStore
      fold_keeps [where Q = "\<lambda>s. filter is_coords_put (trace s)"] writers_no_coords_put)

lemma parse_skip_nodes:
  assumes "skipNodes g"
  shows "NodesStore (parse g inp s) = NodesStore s"
    and "filter is_nodes_put (trace (parse g inp s)) = filter is_nodes_put (trace s)"
  unfolding parse_def skipped_writers(2) [OF assms]
  by (simp_all add: fold_keeps [where Q = NodesStore] writers_keep_NodesStore
      fold_keeps [where Q = "\<lambda>s. filter is_nodes_put (trace s)"] writers_no_nodes_put)

lemma parse_skip_ways:
  assumes "skipWays g"
  shows "WaysStore (parse g inp s) = WaysStore s"
    and "filter is_ways_put (trace (parse g inp s)) = filter is_ways_put (trace s)"
  unfolding parse_def skipped_writers(3) [OF assms]
  by (simp_all add: fold_keeps [where Q = WaysStore] writers_keep_WaysStore
      fold_keeps [where Q = "\<lambda>s. filter is_ways_put (trace s)"] writers_no_ways_put)

text \<open>
  Claim C7. \<^verbatim>\<open>init\<close> sets each skip flag iff its variable has a nonempty value. With
  a flag set, the workers of that kind leave the state as it is for every batch they
  take: \<^verbatim>\<open>parse\<close> changes the store of that kind not at all and adds no \<open>put\<close> event
  of that kind to the trace. So a coord store that was empty before the read phase is
  empty after it.
\<close>

theorem skip_flags_disable_writers:
  "skipCoords (init environ) = (Getenv environ ''GOPOSM_SKIP_COORDS'' \<noteq> [])
   \<and> skipNodes (init environ) = (Getenv environ ''GOPOSM_SKIP_NODES'' \<noteq> [])
   \<and> skipWays (init environ) = (Getenv environ ''GOPOSM_SKIP_WAYS'' \<noteq> [])
   \<and> (skipCoords g \<longrightarrow>
        fold (coord_writer g inp) bs s = s
        \<and> CoordsStore (parse g inp s) = CoordsStore s
        \<and> filter is_coords_put (trace (parse g inp s)) = filter is_coords_put (trace s)
        \<and> CoordsStore (read_phase fl g inp s) = CoordsStore s)
   \<and> (skipNodes g \<longrightarrow>
        fold (node_writer g inp) bs s = s
        \<and> NodesStore (parse g inp s) = NodesStore s
        \<and> filter is_nodes_put (trace (parse g inp s)) = filter is_nodes_put (trace s)
        \<and> NodesStore (read_phase fl g inp s) = NodesStore s)
   \<and> (skipWays g \<longrightarrow>
        fold (way_writer g inp) ws s = s
        \<and> WaysStore (parse g inp s) = WaysStore s
        \<and> filter is_ways_put (trace (parse g inp s)) = filter is_ways_put (trace s)
        \<and> WaysStore (read_phase fl g inp s) = WaysStore s)"
proof (intro conjI impI)
  show "skipCoords (init environ) = (Getenv environ ''GOPOSM_SKIP_COORDS'' \<noteq> [])"
    by (simp add: init_def split: prod.splits)
  show "skipNodes (init environ) = (Getenv environ ''GOPOSM_SKIP_NODES'' \<noteq> [])"
    by (simp add: init_def split: prod.splits)
  show "skipWays (init environ) = (Getenv environ ''GOPOSM_SKIP_WAYS'' \<noteq> [])"
    by (simp add: init_def split: prod.splits)
next
  assume c: "skipCoords g"
  show "fold (coord_writer g inp) bs s = s" using c by (rule skipped_writers)
  show "CoordsStore (parse g inp s) = CoordsStore s" using c by (rule parse_skip_coords)
  show "filter is_coords_put (trace (parse g inp s)) = filter is_coords_put (trace s)"
    using c by (rule parse_skip_coords)
  show "CoordsStore (read_phase fl g inp s) = CoordsStore s"
    using parse_skip_coords(1) [OF c] by (simp add: read_phase_def emit_def)
next
  assume n: "skipNodes g"
  show "fold (node_writer g inp) bs s = s" using n by (rule skipped_writers)
  show "NodesStore (parse g inp s) = NodesStore s" using n by (rule parse_skip_nodes)
  show "filter is_nodes_put (trace (parse g inp s)) = filter is_nodes_put (trace s)"
    using n by (rule parse_skip_nodes)
  show "NodesStore (read_phase fl g inp s) = NodesStore s"
    using parse_skip_nodes(1) [OF n] by (simp add: read_phase_def emit_def)
next
  assume w: "skipWays g"
  show "fold (way_writer g inp) ws s = s" using w by (rule skipped_writers)
  show "WaysStore (parse g inp s) = WaysStore s" using w by (rule parse_skip_ways)
  show "filter is_ways_put (trace (parse g inp s)) = filter is_ways_put (trace s)"
    using w by (rule parse_skip_ways)
  show "WaysStore (read_phase fl g inp s) = WaysStore s"
    using parse_skip_ways(1) [OF w] by (simp add: read_phase_def emit_def)
qed

theorem skip_flags_disable_writers_witness:
  "CoordBatches sample_input \<noteq> [] \<and> NodeBatches sample_input \<noteq> [] \<and> WayBatches sample_input \<noteq> []
   \<and> CoordsStore (read_phase sample_flags
        (init [''GOPOSM_SKIP_COORDS'' \<mapsto> ''1'']) sample_input empty_state) = Map.empty
   \<and> filter is_coords_put (trace (parse (init [''GOPOSM_SKIP_COORDS'' \<mapsto> ''1'']) sample_input empty_state)) = []
   \<and> NodesStore (read_phase sample_flags
        (init [''GOPOSM_SKIP_NODES'' \<mapsto> ''yes'']) sample_input empty_state) = Map.empty
   \<and> WaysStore (read_phase sample_flags
        (init [''GOPOSM_SKIP_WAYS'' \<mapsto> ''true'']) sample_input empty_state) = Map.empty"
proof (intro conjI)
  show "CoordBatches sample_input \<noteq> []" "NodeBatches sample_input \<noteq> []" "WayBatches sample_input \<noteq> []"
    by (simp_all add: sample_input_def)
  let ?c = "[''GOPOSM_SKIP_COORDS'' \<mapsto> ''1'']"
  have c: "skipCoords (init ?c)"
    using skip_flags_disable_writers [where environ = ?c] by (simp add: Getenv_def)
  show "CoordsStore (read_phase sample_flags (init ?c) sample_input empty_state) = Map.empty"
    using skip_flags_disable_writers [where g = "init ?c" and inp = sample_input and s = empty_state
        and fl = sample_flags] c
    by (simp add: empty_state_def)
  show "filter is_coords_put (trace (parse (init ?c) sample_input empty_state)) = []"
    using skip_flags_disable_writers [where g = "init ?c" and inp = sample_input and s = empty_state] c
    by (simp add: empty_state_def)
  let ?n = "[''GOPOSM_SKIP_NODES'' \<mapsto> ''yes'']"
  have n: "skipNodes (init ?n)"
    using skip_flags_disable_writers [where environ = ?n] by (simp add: Getenv_def)
  show "NodesStore (read_phase sample_flags (init ?n) sample_input empty_state) = Map.empty"
    using skip_flags_disable_writers [where g = "init ?n" and inp = sample_input and s = empty_state
        and fl = sample_flags] n
    by (simp add: empty_state_def)
  let ?w = "[''GOPOSM_SKIP_WAYS'' \<mapsto> ''true'']"
  have w: "skipWays (init ?w)"
    using skip_flags_disable_writers [where environ = ?w] by (simp add: Getenv_def)
  show "WaysStore (read_phase sample_flags (init ?w) sample_input empty_state) = Map.empty"
    using skip_flags_disable_writers [where g = "init ?w" and inp = sample_input and s = empty_state
        and fl = sample_flags] w
    by (simp add: empty_state_def)
qed

subsection \<open>C6: linear import, flush, then reads\<close>

lemma run_protocol_append:
  "run_protocol m (xs @ ys) =
     (case run_protocol m xs of None \<Rightarrow> None | Some m1 \<Rightarrow> run_protocol m1 ys)"
  by (induction xs arbitrary: m) (simp_all split: option.splits)

lemma run_protocol_emit:
  assumes "run_protocol m0 (trace s) = Some m" and "protocol_step m e = Some m1"
  shows "run_protocol m0 (trace (emit e s)) = Some m1"
  using assms by (simp add: emit_def run_protocol_append)

lemma trace_log_geom_error: "trace (log_geom_error e s) = trace s"
  by (simp add: log_geom_error_def split: option.splits)

lemma trace_insert_matches: "trace (insert_matches ms e s) = trace s"
  by (simp add: insert_matches_def)

lemma fill_member_protocol:
  assumes "run_protocol m0 (trace s) = Some (False, True)"
  shows "run_protocol m0 (trace (snd (fill_member env m s))) = Some (False, True)"
proof (cases "MWay m")
  case None
  then show ?thesis using assms by (simp add: fill_member_def)
next
  case (Some w)
  have e: "run_protocol m0 (trace (emit (CoordsFillWay (ElemId (WayElem w))) s)) = Some (False, True)"
    using assms by (rule run_protocol_emit) simp
  have "trace (snd (fill_member env m s)) = trace (emit (CoordsFillWay (ElemId (WayElem w))) s)"
    using Some by (simp add: fill_member_def Let_def split: prod.splits option.splits error.splits)
  then show ?thesis using e by simp
qed

lemma fill_members_coords_protocol:
  "run_protocol m0 (trace s) = Some (False, True) \<Longrightarrow>
   run_protocol m0 (trace (snd (fill_members_coords env ms s))) = Some (False, True)"
proof (induction ms arbitrary: s)
  case Nil
  then show ?case by simp
next
  case (Cons m ms)
  obtain ma sa where a: "fill_member env m s = (ma, sa)" by (cases "fill_member env m s")
  obtain mb sb where b: "fill_members_coords env ms sa = (mb, sb)"
    by (cases "fill_members_coords env ms sa")
  have "run_protocol m0 (trace sa) = Some (False, True)"
    using fill_member_protocol [OF Cons.prems, of env m] a by simp
  then have "run_protocol m0 (trace sb) = Some (False, True)"
    using Cons.IH [of sa] b by simp
  then show ?case using a b by simp
qed


lemma relation_step_protocol:
  assumes "run_protocol m0 (trace s) = Some (False, True)"
  shows "run_protocol m0 (trace (relation_step env r s)) = Some (False, True)"
proof -
  let ?sa = "emit WaysFillMembers s"
  have sa: "run_protocol m0 (trace ?sa) = Some (False, True)"
    using assms by (rule run_protocol_emit) simp
  obtain ferr ms where fm: "FillMembers env (Members r) = (ferr, ms)"
    by (cases "FillMembers env (Members r)")
  obtain msa sb where fc: "fill_members_coords env ms ?sa = (msa, sb)"
    by (cases "fill_members_coords env ms ?sa")
  have sb: "run_protocol m0 (trace sb) = Some (False, True)"
    using fill_members_coords_protocol [OF sa, of env ms] fc by simp
  obtain berr rb where br: "BuildRelation env (r\<lparr>Members := msa\<rparr>) = (berr, rb)"
    by (cases "BuildRelation env (r\<lparr>Members := msa\<rparr>)")
  let ?sc = "insert_matches (PolygonMatcher env (RelElem rb)) (RelElem rb) sb"
  have sc: "run_protocol m0 (trace ?sc) = Some (False, True)"
    using sb by (simp add: trace_insert_matches)
  have sd: "run_protocol m0 (trace (emit (InsertedWaysPutMembers (Members rb)) ?sc)) = Some (False, True)"
    using sc by (rule run_protocol_emit) simp
  have "trace (relation_step env r s) = trace ?sa
      \<or> trace (relation_step env r s) = trace sb
      \<or> trace (relation_step env r s) = trace (emit (InsertedWaysPutMembers (Members rb)) ?sc)"
    using fm fc br
    by (simp add: relation_step_def Let_def PutMembers_def trace_log_geom_error emit_def
        insert_matches_def split: option.splits error.splits)
  then show ?thesis using sa sb sd by auto
qed

lemma relation_assembler_protocol:
  "run_protocol m0 (trace s) = Some (False, True) \<Longrightarrow>
   run_protocol m0 (trace (relation_assembler env rs s)) = Some (False, True)"
  by (induction rs arbitrary: s) (simp_all add: relation_step_protocol)

lemma branch_traces:
  "trace (case line_string_branch env w s of Skip x \<Rightarrow> x | Proceed x \<Rightarrow> x) = trace s"
  "trace (case polygon_branch env w s of Skip x \<Rightarrow> x | Proceed x \<Rightarrow> x) = trace s"
  by (simp_all add: line_string_branch_def polygon_branch_def Let_def trace_log_geom_error
      trace_insert_matches split: sum.splits)

lemma way_step_protocol:
  assumes "run_protocol m0 (trace s) = Some (False, True)"
  shows "run_protocol m0 (trace (way_step env d w s)) = Some (False, True)"
proof -
  let ?i = "ElemId (WayElem w)"
  let ?sa = "emit (InsertedWaysIsInserted ?i) s"
  let ?sb = "emit (CoordsFillWay ?i) ?sa"
  have sa: "run_protocol m0 (trace ?sa) = Some (False, True)"
    using assms by (rule run_protocol_emit) simp
  have sb: "run_protocol m0 (trace ?sb) = Some (False, True)"
    using sa by (rule run_protocol_emit) simp
  obtain ferr wa where fw: "FillWay env w = (ferr, wa)" by (cases "FillWay env w")
  let ?wb = "wa\<lparr>Nodes := NodesToMerc env (Nodes wa)\<rparr>"
  have sc: "run_protocol m0 (trace (emit (DiffCoordsAddFromWay ?wb) ?sb)) = Some (False, True)"
    using sb by (rule run_protocol_emit) simp
  have "trace (way_step env d w s) = trace ?sa
      \<or> trace (way_step env d w s) = trace ?sb
      \<or> trace (way_step env d w s) = trace (emit (DiffCoordsAddFromWay ?wb) ?sb)"
  proof (cases "line_string_branch env ?wb ?sb")
    case (Skip x)
    then have "trace x = trace ?sb" using branch_traces(1) [of env ?wb ?sb] by simp
    then show ?thesis using fw Skip
      by (simp add: way_step_def IsInserted_def Let_def split: option.splits)
  next
    case (Proceed x)
    then have x: "trace x = trace ?sb" using branch_traces(1) [of env ?wb ?sb] by simp
    show ?thesis
    proof (cases "polygon_branch env ?wb x")
      case (Skip y)
      then have "trace y = trace ?sb" using branch_traces(2) [of env ?wb x] x by simp
      then show ?thesis using fw Proceed Skip
        by (simp add: way_step_def IsInserted_def Let_def split: option.splits)
    next
      case pp: (Proceed y)
      then have "trace y = trace ?sb" using branch_traces(2) [of env ?wb x] x by simp
      then show ?thesis using fw Proceed pp
        by (simp add: way_step_def IsInserted_def Let_def emit_def split: option.splits)
    qed
  qed
  then show ?thesis using sa sb sc by auto
qed

lemma way_assembler_protocol:
  "run_protocol m0 (trace s) = Some (False, True) \<Longrightarrow>
   run_protocol m0 (trace (way_assembler env d ws s)) = Some (False, True)"
  by (induction ws arbitrary: s) (simp_all add: way_step_protocol)

lemma trace_node_step: "trace (node_step env n s) = trace s"
  by (simp add: node_step_def Let_def trace_log_geom_error trace_insert_matches split: sum.splits)

lemma trace_node_assembler: "trace (node_assembler env ns s) = trace s"
  by (induction ns arbitrary: s) (simp_all add: trace_node_step)


lemma write_phase_protocol:
  assumes "run_protocol m0 (trace s) = Some (False, True)"
  shows "run_protocol m0 (trace (state_of (write_phase fl env inp s))) = Some (False, True)"
proof (cases "write_flag fl")
  case False
  then show ?thesis using assms by (simp add: write_phase_def)
next
  case True
  let ?sa = "emit DiffCacheRemove s"
  let ?sb = "emit DiffCacheOpen ?sa"
  let ?sc = "relation_assembler env (IterRelations inp) (emit RelationsIter ?sb)"
  let ?sd = "way_assembler env (diff_flag fl) (IterWays inp) (emit WaysIter ?sc)"
  let ?se = "node_assembler env (IterNodes inp) (emit NodesIter (emit DiffCoordsClose ?sd))"
  have sa: "run_protocol m0 (trace ?sa) = Some (False, True)"
    using assms by (rule run_protocol_emit) simp
  have sb: "run_protocol m0 (trace ?sb) = Some (False, True)"
    using sa by (rule run_protocol_emit) simp
  have "run_protocol m0 (trace (emit RelationsIter ?sb)) = Some (False, True)"
    using sb by (rule run_protocol_emit) simp
  then have sc: "run_protocol m0 (trace ?sc) = Some (False, True)"
    by (rule relation_assembler_protocol)
  have "run_protocol m0 (trace (emit WaysIter ?sc)) = Some (False, True)"
    using sc by (rule run_protocol_emit) simp
  then have sd: "run_protocol m0 (trace ?sd) = Some (False, True)"
    by (rule way_assembler_protocol)
  have "run_protocol m0 (trace (emit DiffCoordsClose ?sd)) = Some (False, True)"
    using sd by (rule run_protocol_emit) simp
  then have "run_protocol m0 (trace (emit NodesIter (emit DiffCoordsClose ?sd))) = Some (False, True)"
    by (rule run_protocol_emit) simp
  then have se: "run_protocol m0 (trace ?se) = Some (False, True)"
    by (simp add: trace_node_assembler)
  have "state_of (write_phase fl env inp s) \<in> {?sa, ?sb, ?se}"
    using True
    by (cases "DiffCacheRemoveErr inp"; cases "DiffCacheOpenErr inp"; cases "DatabaseOpenErr inp";
        cases "DatabaseInitErr inp") (simp_all add: write_phase_def Let_def)
  then show ?thesis using sa sb se by auto
qed

lemma writers_linear:
  assumes "run_protocol m0 (trace s) = Some (True, f)"
  shows "\<exists>f1. run_protocol m0 (trace (way_writer g inp ws s)) = Some (True, f1)"
    and "\<exists>f1. run_protocol m0 (trace (relation_writer g inp rels s)) = Some (True, f1)"
    and "\<exists>f1. run_protocol m0 (trace (coord_writer g inp nds s)) = Some (True, f1)"
    and "\<exists>f1. run_protocol m0 (trace (node_writer g inp nds s)) = Some (True, f1)"
  using assms
  by (auto simp: way_writer_def relation_writer_def coord_writer_def node_writer_def PutWays_def
      PutRelations_def PutCoords_def PutNodes_def Let_def emit_def run_protocol_append)

lemma fold_linear:
  assumes step: "\<And>x s f. run_protocol m0 (trace s) = Some (True, f) \<Longrightarrow>
      \<exists>f1. run_protocol m0 (trace (w x s)) = Some (True, f1)"
  shows "run_protocol m0 (trace s) = Some (True, f) \<Longrightarrow>
      \<exists>f1. run_protocol m0 (trace (fold w xs s)) = Some (True, f1)"
proof (induction xs arbitrary: s f)
  case Nil
  then show ?case by simp
next
  case (Cons x xs)
  obtain fa where "run_protocol m0 (trace (w x s)) = Some (True, fa)"
    using step [OF Cons.prems] by blast
  then show ?case using Cons.IH [of "w x s" fa] by simp
qed

lemma parse_linear:
  assumes "run_protocol m0 (trace s) = Some (True, f)"
  shows "\<exists>f1. run_protocol m0 (trace (parse g inp s)) = Some (True, f1)"
proof -
  let ?sa = "fold (way_writer g inp) (WayBatches inp) s"
  let ?sb = "fold (relation_writer g inp) (RelationBatches inp) ?sa"
  let ?sc = "fold (coord_writer g inp) (CoordBatches inp) ?sb"
  have "\<exists>f1. run_protocol m0 (trace ?sa) = Some (True, f1)"
    using assms by (rule fold_linear [rotated]) (rule writers_linear(1))
  then obtain fa where a: "run_protocol m0 (trace ?sa) = Some (True, fa)" by blast
  have "\<exists>f1. run_protocol m0 (trace ?sb) = Some (True, f1)"
    using a by (rule fold_linear [rotated]) (rule writers_linear(2))
  then obtain fb where b: "run_protocol m0 (trace ?sb) = Some (True, fb)" by blast
  have "\<exists>f1. run_protocol m0 (trace ?sc) = Some (True, f1)"
    using b by (rule fold_linear [rotated]) (rule writers_linear(3))
  then obtain fc where c: "run_protocol m0 (trace ?sc) = Some (True, fc)" by blast
  have "\<exists>f1. run_protocol m0 (trace (fold (node_writer g inp) (NodeBatches inp) ?sc)) = Some (True, f1)"
    using c by (rule fold_linear [rotated]) (rule writers_linear(4))
  then show ?thesis by (simp add: parse_def)
qed

lemma read_phase_protocol:
  assumes "read_flag fl \<noteq> []" and "run_protocol m0 (trace s) = Some (lin, f)"
  shows "run_protocol m0 (trace (read_phase fl g inp s)) = Some (False, True)"
proof -
  have "run_protocol m0 (trace (emit (CoordsSetLinearImport True) s)) = Some (True, f)"
    using assms(2) by (rule run_protocol_emit) simp
  then obtain fa where
    "run_protocol m0 (trace (parse g inp (emit (CoordsSetLinearImport True) s))) = Some (True, fa)"
    using parse_linear by blast
  then have "run_protocol m0 (trace (emit (CoordsSetLinearImport False)
      (parse g inp (emit (CoordsSetLinearImport True) s)))) = Some (False, fa)"
    by (rule run_protocol_emit) simp
  then have "run_protocol m0 (trace (emit CoordsFlush (emit (CoordsSetLinearImport False)
      (parse g inp (emit (CoordsSetLinearImport True) s))))) = Some (False, True)"
    by (rule run_protocol_emit) simp
  then show ?thesis using assms(1) by (simp add: read_phase_def)
qed

lemma setup_profiles_state: "state_of (setup_profiles fl inp s) = s"
  by (cases "CreateProfileErr inp"; cases "ParseDurationErr inp") (simp_all add: setup_profiles_def)

lemma open_cache_protocol:
  assumes "run_protocol m0 (trace s) = Some m"
  shows "run_protocol m0 (trace (state_of (open_cache fl inp s))) = Some m"
proof -
  obtain lin f where m: "m = (lin, f)" by (cases m)
  have a: "run_protocol m0 (trace (emit CacheRemove s)) = Some m"
    using assms by (rule run_protocol_emit) (simp add: m)
  have b: "run_protocol m0 (trace (emit CacheOpen s)) = Some m"
    using assms by (rule run_protocol_emit) (simp add: m)
  have c: "run_protocol m0 (trace (emit CacheOpen (emit CacheRemove s))) = Some m"
    using a by (rule run_protocol_emit) (simp add: m)
  have "state_of (open_cache fl inp s) \<in> {s, emit CacheRemove s, emit CacheOpen s,
      emit CacheOpen (emit CacheRemove s)}"
    by (cases "CacheRemoveErr inp"; cases "CacheOpenErr inp"; cases "NewMappingErr inp")
      (simp_all add: open_cache_def)
  then show ?thesis using assms a b c by auto
qed

text \<open>
  Claim C6. In a run with a nonempty \<^verbatim>\<open>read\<close> flag, started with no call made yet, the
  calls on the caches follow the protocol of the coord store, however the run ends: every
  batch of coords is written in linear-import mode, and every \<open>iter\<close> and \<open>fill\<close> on the
  cache comes after linear-import mode was switched off and \<open>Flush\<close> was called. The
  read phase by itself ends with linear-import mode off and the store flushed, and so
  does a run that returns from \<^verbatim>\<open>main\<close>.
\<close>

theorem coord_store_protocol:
  "read_flag fl \<noteq> [] \<and> trace s = [] \<longrightarrow>
     run_protocol (False, False) (trace (state_of (main fl g env inp s))) \<noteq> None
     \<and> run_protocol (False, False) (trace (read_phase fl g inp s)) = Some (False, True)
     \<and> (\<forall>t. main fl g env inp s = Completed t \<longrightarrow>
            run_protocol (False, False) (trace t) = Some (False, True))"
proof (intro impI)
  assume h: "read_flag fl \<noteq> [] \<and> trace s = []"
  let ?run = "\<lambda>t. run_protocol (False, False) (trace t)"
  have s0: "?run s = Some (False, False)" using h by simp
  have nonempty: "read_flag fl \<noteq> []" using h by simp
  have rpp: "?run (read_phase fl g inp u) = Some (False, True)" if "?run u = Some (False, False)" for u
    using nonempty that by (rule read_phase_protocol)
  have rp: "?run (read_phase fl g inp s) = Some (False, True)"
    using s0 by (rule rpp)
  have m: "?run (state_of (main fl g env inp s)) = Some (False, False)
      \<or> ?run (state_of (main fl g env inp s)) = Some (False, True)"
  proof (cases "setup_profiles fl inp s")
    case (Fatal e t)
    then have "t = s" using setup_profiles_state [of fl inp s] by simp
    then show ?thesis using Fatal s0 by (simp add: main_def)
  next
    case sp: (Completed t)
    then have t: "t = s" using setup_profiles_state [of fl inp s] by simp
    show ?thesis
    proof (cases "open_cache fl inp s")
      case (Fatal e u)
      then have "?run u = Some (False, False)" using open_cache_protocol [OF s0, of fl inp] by simp
      then show ?thesis using sp t Fatal by (simp add: main_def)
    next
      case oc: (Completed u)
      then have "?run u = Some (False, False)" using open_cache_protocol [OF s0, of fl inp] by simp
      then have "?run (read_phase fl g inp u) = Some (False, True)"
        by (rule rpp)
      then have w: "?run (state_of (write_phase fl env inp (read_phase fl g inp u))) = Some (False, True)"
        by (rule write_phase_protocol)
      show ?thesis
      proof (cases "write_phase fl env inp (read_phase fl g inp u)")
        case (Fatal e v)
        then show ?thesis using sp t oc w by (simp add: main_def)
      next
        case (Completed v)
        then have "?run v = Some (False, True)" using w by simp
        then have "?run (emit CacheClose v) = Some (False, True)"
          by (rule run_protocol_emit) simp
        then show ?thesis using sp t oc Completed by (simp add: main_def)
      qed
    qed
  qed
  have c: "\<forall>t. main fl g env inp s = Completed t \<longrightarrow> ?run t = Some (False, True)"
  proof (intro allI impI)
    fix t
    assume fin: "main fl g env inp s = Completed t"
    obtain u where oc: "open_cache fl inp s = Completed u"
      using fin setup_profiles_state [of fl inp s]
      by (cases "setup_profiles fl inp s"; cases "open_cache fl inp s") (simp_all add: main_def)
    have sp: "setup_profiles fl inp s = Completed s"
      using fin setup_profiles_state [of fl inp s]
      by (cases "setup_profiles fl inp s") (simp_all add: main_def)
    obtain v where wp: "write_phase fl env inp (read_phase fl g inp u) = Completed v"
      using fin sp oc by (cases "write_phase fl env inp (read_phase fl g inp u)") (simp_all add: main_def)
    have "?run u = Some (False, False)" using open_cache_protocol [OF s0, of fl inp] oc by simp
    then have "?run (read_phase fl g inp u) = Some (False, True)"
      by (rule rpp)
    then have "?run v = Some (False, True)"
      using write_phase_protocol [of "(False, False)" "read_phase fl g inp u" fl env inp] wp by simp
    then have "?run (emit CacheClose v) = Some (False, True)"
      by (rule run_protocol_emit) simp
    then show "?run t = Some (False, True)" using fin sp oc wp by (simp add: main_def)
  qed
  show "?run (state_of (main fl g env inp s)) \<noteq> None
     \<and> ?run (read_phase fl g inp s) = Some (False, True)
     \<and> (\<forall>t. main fl g env inp s = Completed t \<longrightarrow> ?run t = Some (False, True))"
    using m rp c by auto
qed


theorem coord_store_protocol_witness:
  "run_protocol (False, False)
     (trace (state_of (main sample_flags (init Map.empty) sample_env sample_input empty_state))) \<noteq> None
   \<and> run_protocol (False, False)
       (trace (read_phase sample_flags (init Map.empty) sample_input empty_state)) = Some (False, True)
   \<and> CoordsPutCoords [sample_coord 3]
       \<in> set (trace (read_phase sample_flags (init Map.empty) sample_input empty_state))
   \<and> (case main sample_flags (init Map.empty) sample_env sample_input empty_state of
         Completed t \<Rightarrow> run_protocol (False, False) (trace t) = Some (False, True)
       | Fatal e t \<Rightarrow> False)"
proof -
  have "\<exists>t. main sample_flags (init Map.empty) sample_env sample_input empty_state = Completed t"
    by (simp add: main_def setup_profiles_def open_cache_def write_phase_def sample_flags_def
        sample_input_def Let_def)
  then obtain t where t: "main sample_flags (init Map.empty) sample_env sample_input empty_state = Completed t"
    by blast
  have h: "read_flag sample_flags \<noteq> [] \<and> trace empty_state = []"
    by (simp add: sample_flags_def empty_state_def)
  have "CoordsPutCoords [sample_coord 3]
       \<in> set (trace (read_phase sample_flags (init Map.empty) sample_input empty_state))"
    by (simp add: read_phase_def parse_def sample_flags_def sample_input_def init_def Getenv_def
        ParseInt_def coord_writer_def node_writer_def way_writer_def relation_writer_def
        PutCoords_def PutNodes_def PutWays_def PutRelations_def emit_def empty_state_def)
  then show ?thesis
    using coord_store_protocol [where fl = sample_flags and s = empty_state and g = "init Map.empty"
        and env = sample_env and inp = sample_input] h t
    by simp
qed

lemma run_protocol_rejects_early_read:
  "run_protocol (False, False) [CacheOpen, DiffCacheRemove, DiffCacheOpen, RelationsIter] = None"
  "run_protocol (False, False) [CoordsPutCoords [sample_coord 1] ] = None"
  "run_protocol (False, False)
     [CoordsSetLinearImport True, CoordsPutCoords [sample_coord 1], CoordsFillWay 1] = None"
  by simp_all

subsection \<open>C10: the diff cache\<close>

lemma diff_events_fill_member:
  "filter is_diff_event (trace (snd (fill_member env m s))) = filter is_diff_event (trace s)"
  by (simp add: fill_member_def emit_def Let_def split: option.splits prod.splits error.splits)

lemma diff_events_fill_members_coords:
  "filter is_diff_event (trace (snd (fill_members_coords env ms s))) = filter is_diff_event (trace s)"
proof (induction ms arbitrary: s)
  case Nil
  show ?case by simp
next
  case (Cons m ms)
  obtain ma sa where a: "fill_member env m s = (ma, sa)" by (cases "fill_member env m s")
  obtain mb sb where b: "fill_members_coords env ms sa = (mb, sb)"
    by (cases "fill_members_coords env ms sa")
  show ?case using Cons.IH [of sa] diff_events_fill_member [of env m s] a b by simp
qed

lemma diff_events_relation_step:
  "filter is_diff_event (trace (relation_step env r s)) = filter is_diff_event (trace s)"
proof -
  let ?sa = "emit WaysFillMembers s"
  obtain ferr ms where fm: "FillMembers env (Members r) = (ferr, ms)"
    by (cases "FillMembers env (Members r)")
  obtain msa sb where fc: "fill_members_coords env ms ?sa = (msa, sb)"
    by (cases "fill_members_coords env ms ?sa")
  have sb: "filter is_diff_event (trace sb) = filter is_diff_event (trace s)"
    using diff_events_fill_members_coords [of env ms ?sa] fc by (simp add: emit_def)
  obtain berr rb where br: "BuildRelation env (r\<lparr>Members := msa\<rparr>) = (berr, rb)"
    by (cases "BuildRelation env (r\<lparr>Members := msa\<rparr>)")
  have "trace (relation_step env r s) = trace ?sa
      \<or> trace (relation_step env r s) = trace sb
      \<or> trace (relation_step env r s) = trace sb @ [InsertedWaysPutMembers (Members rb)]"
    using fm fc br
    by (simp add: relation_step_def Let_def PutMembers_def trace_log_geom_error emit_def
        insert_matches_def split: option.splits error.splits)
  then show ?thesis using sb by (auto simp: emit_def)
qed

lemma diff_events_relation_assembler:
  "filter is_diff_event (trace (relation_assembler env rs s)) = filter is_diff_event (trace s)"
  by (induction rs arbitrary: s) (simp_all add: diff_events_relation_step)

lemma way_step_diff_events:
  assumes "FillWay env w = (ferr, wa)" and "wb = wa\<lparr>Nodes := NodesToMerc env (Nodes wa)\<rparr>"
  shows "filter is_diff_event (trace (way_step env d w s)) =
      filter is_diff_event (trace s) @
      (if d \<and> ElemId (WayElem w) \<notin> inserted s \<and> ferr = None
          \<and> \<not> (LineStringMatcher env (WayElem wb) \<noteq> [] \<and> isl (LineStringWKB env (Nodes wb)))
          \<and> \<not> (IsClosed wb \<and> PolygonMatcher env (WayElem wb) \<noteq> [] \<and> isl (PolygonWKB env (Nodes wb)))
       then [DiffCoordsAddFromWay wb] else [])"
proof (cases "ElemId (WayElem w) \<in> inserted s \<or> ferr \<noteq> None")
  case True
  then show ?thesis using assms
    by (auto simp: way_step_def IsInserted_def emit_def Let_def)
next
  case False
  let ?t = "emit (CoordsFillWay (ElemId (WayElem w))) (emit (InsertedWaysIsInserted (ElemId (WayElem w))) s)"
  have t: "filter is_diff_event (trace ?t) = filter is_diff_event (trace s)" by (simp add: emit_def)
  have step: "way_step env d w s =
      (case line_string_branch env wb ?t of
         Skip x \<Rightarrow> x
       | Proceed x \<Rightarrow> (case polygon_branch env wb x of
            Skip y \<Rightarrow> y
          | Proceed y \<Rightarrow> if d then emit (DiffCoordsAddFromWay wb) y else y))"
    using False assms(1) unfolding assms(2) by (simp add: way_step_def IsInserted_def Let_def)
  show ?thesis
  proof (cases "LineStringMatcher env (WayElem wb) \<noteq> [] \<and> isl (LineStringWKB env (Nodes wb))")
    case True
    then obtain e where "LineStringWKB env (Nodes wb) = Inl e" by (cases "LineStringWKB env (Nodes wb)") auto
    then have "way_step env d w s = log_geom_error e ?t"
      using step True by (simp add: line_string_branch_def)
    then show ?thesis using True t by (simp add: trace_log_geom_error)
  next
    case lsok: False
    then have "\<exists>x. line_string_branch env wb ?t = Proceed x"
      by (cases "LineStringWKB env (Nodes wb)") (simp_all add: line_string_branch_def Let_def)
    then obtain x where x: "line_string_branch env wb ?t = Proceed x" by blast
    have xt: "trace x = trace ?t" using branch_traces(1) [of env wb ?t] x by simp
    show ?thesis
    proof (cases "IsClosed wb \<and> PolygonMatcher env (WayElem wb) \<noteq> [] \<and> isl (PolygonWKB env (Nodes wb))")
      case True
      then obtain e where "PolygonWKB env (Nodes wb) = Inl e" by (cases "PolygonWKB env (Nodes wb)") auto
      then have "way_step env d w s = log_geom_error e x"
        using step x True by (simp add: polygon_branch_def)
      then show ?thesis using True t xt by (simp add: trace_log_geom_error)
    next
      case pgok: False
      then have "\<exists>y. polygon_branch env wb x = Proceed y"
        by (cases "PolygonWKB env (Nodes wb)") (simp_all add: polygon_branch_def Let_def)
      then obtain y where y: "polygon_branch env wb x = Proceed y" by blast
      have yt: "trace y = trace ?t" using branch_traces(2) [of env wb x] y xt by simp
      have "way_step env d w s = (if d then emit (DiffCoordsAddFromWay wb) y else y)"
        using step x y by simp
      then show ?thesis using False lsok pgok t yt by (simp add: emit_def)
    qed
  qed
qed


lemma way_assembler_diff_events:
  "\<exists>adds. (\<forall>e \<in> set adds. \<exists>w. e = DiffCoordsAddFromWay w) \<and> (\<not> d \<longrightarrow> adds = []) \<and>
     filter is_diff_event (trace (way_assembler env d ws s)) = filter is_diff_event (trace s) @ adds"
proof (induction ws arbitrary: s)
  case Nil
  show ?case by simp
next
  case (Cons w ws)
  obtain ferr wa where fw: "FillWay env w = (ferr, wa)" by (cases "FillWay env w")
  let ?wb = "wa\<lparr>Nodes := NodesToMerc env (Nodes wa)\<rparr>"
  have "\<exists>a. (a = [] \<or> a = [DiffCoordsAddFromWay ?wb]) \<and> (\<not> d \<longrightarrow> a = []) \<and>
      filter is_diff_event (trace (way_step env d w s)) = filter is_diff_event (trace s) @ a"
    using way_step_diff_events [OF fw refl, of d s] by (simp split: if_splits)
  then obtain a where a: "a = [] \<or> a = [DiffCoordsAddFromWay ?wb]" "\<not> d \<longrightarrow> a = []"
      "filter is_diff_event (trace (way_step env d w s)) = filter is_diff_event (trace s) @ a"
    by blast
  obtain adds where b: "\<forall>e \<in> set adds. \<exists>w. e = DiffCoordsAddFromWay w" "\<not> d \<longrightarrow> adds = []"
      "filter is_diff_event (trace (way_assembler env d ws (way_step env d w s))) =
         filter is_diff_event (trace (way_step env d w s)) @ adds"
    using Cons.IH [of "way_step env d w s"] by blast
  have "(\<forall>e \<in> set (a @ adds). \<exists>w. e = DiffCoordsAddFromWay w) \<and> (\<not> d \<longrightarrow> a @ adds = []) \<and>
     filter is_diff_event (trace (way_assembler env d (w # ws) s)) = filter is_diff_event (trace s) @ (a @ adds)"
    using a b by auto
  then show ?case by blast
qed

lemma write_phase_completed:
  assumes "write_flag fl" and "write_phase fl env inp s = Completed t"
  shows "t = node_assembler env (IterNodes inp) (emit NodesIter (emit DiffCoordsClose
      (way_assembler env (diff_flag fl) (IterWays inp) (emit WaysIter
        (relation_assembler env (IterRelations inp)
          (emit RelationsIter (emit DiffCacheOpen (emit DiffCacheRemove s))))))))"
  using assms
  by (cases "DiffCacheRemoveErr inp"; cases "DiffCacheOpenErr inp"; cases "DatabaseOpenErr inp";
      cases "DatabaseInitErr inp") (simp_all add: write_phase_def Let_def)

lemma write_phase_diff_events:
  assumes "write_flag fl" and "write_phase fl env inp s = Completed t"
  shows "\<exists>adds. (\<forall>e \<in> set adds. \<exists>w. e = DiffCoordsAddFromWay w) \<and> (\<not> diff_flag fl \<longrightarrow> adds = []) \<and>
     filter is_diff_event (trace t) =
       filter is_diff_event (trace s) @ [DiffCacheRemove, DiffCacheOpen] @ adds @ [DiffCoordsClose]"
proof -
  let ?sa = "relation_assembler env (IterRelations inp)
          (emit RelationsIter (emit DiffCacheOpen (emit DiffCacheRemove s)))"
  let ?sb = "way_assembler env (diff_flag fl) (IterWays inp) (emit WaysIter ?sa)"
  have sa: "filter is_diff_event (trace ?sa) = filter is_diff_event (trace s) @ [DiffCacheRemove, DiffCacheOpen]"
    by (simp add: diff_events_relation_assembler emit_def)
  obtain adds where adds: "\<forall>e \<in> set adds. \<exists>w. e = DiffCoordsAddFromWay w" "\<not> diff_flag fl \<longrightarrow> adds = []"
      "filter is_diff_event (trace ?sb) = filter is_diff_event (trace (emit WaysIter ?sa)) @ adds"
    using way_assembler_diff_events [of "diff_flag fl" env "IterWays inp" "emit WaysIter ?sa"] by blast
  have "filter is_diff_event (trace t) = filter is_diff_event (trace ?sb) @ [DiffCoordsClose]"
    unfolding write_phase_completed [OF assms] by (simp add: trace_node_assembler emit_def)
  then have "filter is_diff_event (trace t) =
       filter is_diff_event (trace s) @ [DiffCacheRemove, DiffCacheOpen] @ adds @ [DiffCoordsClose]"
    using adds(3) sa by (simp add: emit_def)
  then show ?thesis using adds(1,2) by blast
qed

lemma write_phase_removes_first:
  assumes "write_flag fl"
  shows "\<exists>rest. filter is_diff_event (trace (state_of (write_phase fl env inp s))) =
      filter is_diff_event (trace s) @ DiffCacheRemove # rest"
proof (cases "write_phase fl env inp s")
  case (Completed t)
  then show ?thesis using write_phase_diff_events [OF assms Completed] by auto
next
  case (Fatal e t)
  then have "t = emit DiffCacheRemove s \<or> t = emit DiffCacheOpen (emit DiffCacheRemove s)"
    using assms
    by (cases "DiffCacheRemoveErr inp"; cases "DiffCacheOpenErr inp"; cases "DatabaseOpenErr inp";
        cases "DatabaseInitErr inp") (simp_all add: write_phase_def Let_def)
  then show ?thesis using Fatal by (auto simp: emit_def)
qed

text \<open>
  Claim C10 says \<open>AddFromWay\<close> is called for a way iff the diff flag is set, the way is not
  marked as inserted and its coord fill succeeded. Way \<open>5\<close> below meets all three, but its
  line-string build fails, the step ends there, and nothing is recorded for the diff.
\<close>

theorem add_from_way_counterexample:
  "ElemId (WayElem (sample_way 5 [(''highway'', ''x'')] [13, 5])) \<notin> inserted empty_state
   \<and> fst (FillWay sample_env (sample_way 5 [(''highway'', ''x'')] [13, 5])) = None
   \<and> trace (way_step sample_env True (sample_way 5 [(''highway'', ''x'')] [13, 5]) empty_state)
       = [InsertedWaysIsInserted 5, CoordsFillWay 5]"
  by (simp add: sample_defs way_step_def IsInserted_def emit_def line_string_branch_def
      log_geom_error_def)

text \<open>
  Claim C10 as amended. A write phase first calls \<open>Remove\<close> on the diff cache, whatever the
  diff flag is. A write phase that is not ended by a fatal error makes these calls on the
  diff cache, in this order: \<open>Remove\<close>, \<open>Open\<close>, then \<open>AddFromWay\<close> calls only (none
  when the diff flag is off), then \<open>Close\<close> of its coord store. The step for a way calls
  \<open>AddFromWay\<close> iff the diff flag is set, the way is not marked as inserted, its coord
  fill succeeded and neither of its geometry builds failed; whether the way matched a
  rule plays no part beyond that.
\<close>

theorem diff_cache_calls:
  "(FillWay env w = (ferr, wa) \<and> wb = wa\<lparr>Nodes := NodesToMerc env (Nodes wa)\<rparr> \<longrightarrow>
      filter is_diff_event (trace (way_step env d w s)) =
        filter is_diff_event (trace s) @
        (if d \<and> ElemId (WayElem w) \<notin> inserted s \<and> ferr = None
            \<and> \<not> (LineStringMatcher env (WayElem wb) \<noteq> [] \<and> isl (LineStringWKB env (Nodes wb)))
            \<and> \<not> (IsClosed wb \<and> PolygonMatcher env (WayElem wb) \<noteq> [] \<and> isl (PolygonWKB env (Nodes wb)))
         then [DiffCoordsAddFromWay wb] else []))
   \<and> (write_flag fl \<longrightarrow>
        (\<exists>rest. filter is_diff_event (trace (state_of (write_phase fl env inp s))) =
           filter is_diff_event (trace s) @ DiffCacheRemove # rest))
   \<and> (write_flag fl \<and> write_phase fl env inp s = Completed t \<longrightarrow>
        (\<exists>adds. (\<forall>e \<in> set adds. \<exists>w. e = DiffCoordsAddFromWay w) \<and> (\<not> diff_flag fl \<longrightarrow> adds = []) \<and>
           filter is_diff_event (trace t) =
             filter is_diff_event (trace s) @ [DiffCacheRemove, DiffCacheOpen] @ adds @ [DiffCoordsClose]))"
proof (intro conjI impI)
  assume "FillWay env w = (ferr, wa) \<and> wb = wa\<lparr>Nodes := NodesToMerc env (Nodes wa)\<rparr>"
  then have a: "FillWay env w = (ferr, wa)" and b: "wb = wa\<lparr>Nodes := NodesToMerc env (Nodes wa)\<rparr>"
    by simp_all
  show "filter is_diff_event (trace (way_step env d w s)) =
        filter is_diff_event (trace s) @
        (if d \<and> ElemId (WayElem w) \<notin> inserted s \<and> ferr = None
            \<and> \<not> (LineStringMatcher env (WayElem wb) \<noteq> [] \<and> isl (LineStringWKB env (Nodes wb)))
            \<and> \<not> (IsClosed wb \<and> PolygonMatcher env (WayElem wb) \<noteq> [] \<and> isl (PolygonWKB env (Nodes wb)))
         then [DiffCoordsAddFromWay wb] else [])"
    using a b by (rule way_step_diff_events)
next
  assume "write_flag fl"
  then show "\<exists>rest. filter is_diff_event (trace (state_of (write_phase fl env inp s))) =
           filter is_diff_event (trace s) @ DiffCacheRemove # rest"
    by (rule write_phase_removes_first)
next
  assume "write_flag fl \<and> write_phase fl env inp s = Completed t"
  then have a: "write_flag fl" and b: "write_phase fl env inp s = Completed t" by simp_all
  show "\<exists>adds. (\<forall>e \<in> set adds. \<exists>w. e = DiffCoordsAddFromWay w) \<and> (\<not> diff_flag fl \<longrightarrow> adds = []) \<and>
           filter is_diff_event (trace t) =
             filter is_diff_event (trace s) @ [DiffCacheRemove, DiffCacheOpen] @ adds @ [DiffCoordsClose]"
    using a b by (rule write_phase_diff_events)
qed

theorem diff_cache_calls_witness:
  "filter is_diff_event (trace (way_step sample_env True (sample_way 3 [] [4, 1]) empty_state))
     = [DiffCoordsAddFromWay ((sample_way 3 [] [4, 1])\<lparr>Nodes := map (\<lambda>i. sample_merc (sample_coord i)) [4, 1]\<rparr>)]
   \<and> filter is_diff_event (trace (way_step sample_env False (sample_way 3 [] [4, 1]) empty_state)) = []
   \<and> filter is_diff_event
        (trace (state_of (write_phase (sample_flags\<lparr>diff_flag := False\<rparr>) sample_env sample_input empty_state)))
     = [DiffCacheRemove, DiffCacheOpen, DiffCoordsClose]"
proof (intro conjI)
  let ?w = "sample_way 3 [] [4, 1]"
  let ?wa = "snd (FillWay sample_env ?w)"
  let ?wb = "?wa\<lparr>Nodes := NodesToMerc sample_env (Nodes ?wa)\<rparr>"
  show "filter is_diff_event (trace (way_step sample_env True ?w empty_state))
     = [DiffCoordsAddFromWay (?w\<lparr>Nodes := map (\<lambda>i. sample_merc (sample_coord i)) [4, 1]\<rparr>)]"
    using diff_cache_calls [where env = sample_env and w = ?w and ferr = None and wa = ?wa and wb = ?wb
        and d = True and s = empty_state]
    by (simp add: sample_defs IsClosed_def)
  show "filter is_diff_event (trace (way_step sample_env False ?w empty_state)) = []"
    using diff_cache_calls [where env = sample_env and w = ?w and ferr = None and wa = ?wa and wb = ?wb
        and d = False and s = empty_state]
    by (simp add: sample_defs IsClosed_def)
next
  let ?fl = "sample_flags\<lparr>diff_flag := False\<rparr>"
  have w: "write_flag ?fl" by (simp add: sample_flags_def)
  have "\<exists>t. write_phase ?fl sample_env sample_input empty_state = Completed t"
    by (simp add: write_phase_def sample_flags_def sample_input_def Let_def)
  then obtain t where t: "write_phase ?fl sample_env sample_input empty_state = Completed t" by blast
  have "filter is_diff_event (trace t) = [DiffCacheRemove, DiffCacheOpen, DiffCoordsClose]"
    using diff_cache_calls [where fl = ?fl and env = sample_env and inp = sample_input
        and s = empty_state and t = t] w t
    by (auto simp: sample_flags_def empty_state_def)
  then show "filter is_diff_event (trace (state_of (write_phase ?fl sample_env sample_input empty_state)))
     = [DiffCacheRemove, DiffCacheOpen, DiffCoordsClose]"
    using t by simp
qed

subsection \<open>C4: a way matching line-string and polygon rules\<close>

text \<open>
  Claim C4 says that every closed way whose tags match both a line-string and a polygon
  rule and whose coords resolve gets rows from both branches. Way \<open>5\<close> below is closed,
  matches both rules and its coords resolve, but its line-string build fails: the way
  assembler emits no row for it, from neither branch.
\<close>

theorem way_matching_both_rules_counterexample:
  "LineStringMatcher sample_env
       (WayElem (sample_way 5 [(''highway'', ''x''), (''building'', ''yes'')] [13, 5, 6, 7, 13])) \<noteq> []
   \<and> PolygonMatcher sample_env
       (WayElem (sample_way 5 [(''highway'', ''x''), (''building'', ''yes'')] [13, 5, 6, 7, 13])) \<noteq> []
   \<and> IsClosed (sample_way 5 [(''highway'', ''x''), (''building'', ''yes'')] [13, 5, 6, 7, 13])
   \<and> fst (FillWay sample_env
       (sample_way 5 [(''highway'', ''x''), (''building'', ''yes'')] [13, 5, 6, 7, 13])) = None
   \<and> rows (way_assembler sample_env True
       [sample_way 5 [(''highway'', ''x''), (''building'', ''yes'')] [13, 5, 6, 7, 13] ] empty_state) = []"
  by (simp add: sample_defs IsClosed_def way_step_def IsInserted_def emit_def line_string_branch_def
      log_geom_error_def)

text \<open>
  Claim C4 as amended. For a way that is not marked as inserted, whose coords resolve,
  that is closed, matches both a line-string and a polygon rule, and whose line-string
  and polygon builds both succeed, the way assembler emits the rows of both branches and
  goes on with the remaining ways. The line-string rows are built from a copy of the way
  record carrying the line-string geometry, the polygon rows from a copy carrying the
  polygon geometry. The polygon matcher and the closedness test run on the record \<open>wb\<close>
  itself, whose \<open>Geom\<close> the line-string branch has not touched; both builders get the
  same coords \<open>Nodes wb\<close>; and the record handed to the diff coord store is \<open>wb\<close>, with
  neither geometry in it.
\<close>

theorem way_matching_both_rules:
  "ElemId (WayElem w) \<notin> inserted s \<and> FillWay env w = (None, wa) \<and>
   wb = wa\<lparr>Nodes := NodesToMerc env (Nodes wa)\<rparr> \<and>
   LineStringMatcher env (WayElem wb) \<noteq> [] \<and> LineStringWKB env (Nodes wb) = Inr gl \<and>
   IsClosed wb \<and>
   PolygonMatcher env (WayElem wb) \<noteq> [] \<and> PolygonWKB env (Nodes wb) = Inr gp
   \<longrightarrow>
     way_assembler env d (w # ws) s =
       way_assembler env d ws
         ((if d then emit (DiffCoordsAddFromWay wb) else (\<lambda>x. x))
            (insert_matches (PolygonMatcher env (WayElem wb)) ((WayElem wb)\<lparr>Geom := Some gp\<rparr>)
               (insert_matches (LineStringMatcher env (WayElem wb)) ((WayElem wb)\<lparr>Geom := Some gl\<rparr>)
                  (emit (CoordsFillWay (ElemId (WayElem w)))
                     (emit (InsertedWaysIsInserted (ElemId (WayElem w))) s)))))
   \<and> rows (way_assembler env d [w] s) =
       rows s
       @ map (\<lambda>m. (Table m, Row m ((WayElem wb)\<lparr>Geom := Some gl\<rparr>))) (LineStringMatcher env (WayElem wb))
       @ map (\<lambda>m. (Table m, Row m ((WayElem wb)\<lparr>Geom := Some gp\<rparr>))) (PolygonMatcher env (WayElem wb))
   \<and> trace (way_assembler env d [w] s) =
       trace s @ [InsertedWaysIsInserted (ElemId (WayElem w)), CoordsFillWay (ElemId (WayElem w))]
       @ (if d then [DiffCoordsAddFromWay wb] else [])
   \<and> Geom (WayElem wb) = Geom (WayElem wa)"
proof (intro impI)
  assume h: "ElemId (WayElem w) \<notin> inserted s \<and> FillWay env w = (None, wa) \<and>
   wb = wa\<lparr>Nodes := NodesToMerc env (Nodes wa)\<rparr> \<and>
   LineStringMatcher env (WayElem wb) \<noteq> [] \<and> LineStringWKB env (Nodes wb) = Inr gl \<and>
   IsClosed wb \<and>
   PolygonMatcher env (WayElem wb) \<noteq> [] \<and> PolygonWKB env (Nodes wb) = Inr gp"
  let ?t = "emit (CoordsFillWay (ElemId (WayElem w))) (emit (InsertedWaysIsInserted (ElemId (WayElem w))) s)"
  let ?u = "insert_matches (PolygonMatcher env (WayElem wb)) ((WayElem wb)\<lparr>Geom := Some gp\<rparr>)
               (insert_matches (LineStringMatcher env (WayElem wb)) ((WayElem wb)\<lparr>Geom := Some gl\<rparr>) ?t)"
  let ?v = "(if d then emit (DiffCoordsAddFromWay wb) else (\<lambda>x. x)) ?u"
  have step: "way_step env d w s = ?v"
    using h by (auto simp: way_step_def IsInserted_def line_string_branch_def polygon_branch_def Let_def)
  have r: "rows ?v = rows s
       @ map (\<lambda>m. (Table m, Row m ((WayElem wb)\<lparr>Geom := Some gl\<rparr>))) (LineStringMatcher env (WayElem wb))
       @ map (\<lambda>m. (Table m, Row m ((WayElem wb)\<lparr>Geom := Some gp\<rparr>))) (PolygonMatcher env (WayElem wb))"
    by (simp add: insert_matches_def emit_def)
  have t: "trace ?v = trace s @ [InsertedWaysIsInserted (ElemId (WayElem w)), CoordsFillWay (ElemId (WayElem w))]
       @ (if d then [DiffCoordsAddFromWay wb] else [])"
    by (simp add: insert_matches_def emit_def)
  have g: "Geom (WayElem wb) = Geom (WayElem wa)" using h by simp
  show "way_assembler env d (w # ws) s = way_assembler env d ws ?v
   \<and> rows (way_assembler env d [w] s) =
       rows s
       @ map (\<lambda>m. (Table m, Row m ((WayElem wb)\<lparr>Geom := Some gl\<rparr>))) (LineStringMatcher env (WayElem wb))
       @ map (\<lambda>m. (Table m, Row m ((WayElem wb)\<lparr>Geom := Some gp\<rparr>))) (PolygonMatcher env (WayElem wb))
   \<and> trace (way_assembler env d [w] s) =
       trace s @ [InsertedWaysIsInserted (ElemId (WayElem w)), CoordsFillWay (ElemId (WayElem w))]
       @ (if d then [DiffCoordsAddFromWay wb] else [])
   \<and> Geom (WayElem wb) = Geom (WayElem wa)"
    using step r t g by simp
qed

theorem way_matching_both_rules_witness:
  "rows (way_assembler sample_env True
          [sample_way 5 [(''highway'', ''x''), (''building'', ''yes'')] [4, 5, 6, 7, 4],
           sample_way 6 [(''highway'', ''y'')] [1, 2] ] empty_state)
     = [(''roads'', [IntV 5, GeomV (Some [2, 5])]), (''buildings'', [IntV 5, GeomV (Some [3, 5])]),
        (''roads'', [IntV 6, GeomV (Some [2, 2])])]
   \<and> trace (way_assembler sample_env True
          [sample_way 5 [(''highway'', ''x''), (''building'', ''yes'')] [4, 5, 6, 7, 4] ] empty_state)
     = [InsertedWaysIsInserted 5, CoordsFillWay 5,
        DiffCoordsAddFromWay
          ((sample_way 5 [(''highway'', ''x''), (''building'', ''yes'')] [4, 5, 6, 7, 4])
             \<lparr>Nodes := map (\<lambda>i. sample_merc (sample_coord i)) [4, 5, 6, 7, 4]\<rparr>)]"
proof -
  let ?w = "sample_way 5 [(''highway'', ''x''), (''building'', ''yes'')] [4, 5, 6, 7, 4]"
  let ?wa = "snd (FillWay sample_env ?w)"
  let ?wb = "?wa\<lparr>Nodes := NodesToMerc sample_env (Nodes ?wa)\<rparr>"
  have a: "rows (way_assembler sample_env True [?w, sample_way 6 [(''highway'', ''y'')] [1, 2] ] empty_state)
     = [(''roads'', [IntV 5, GeomV (Some [2, 5])]), (''buildings'', [IntV 5, GeomV (Some [3, 5])]),
        (''roads'', [IntV 6, GeomV (Some [2, 2])])]"
    using way_matching_both_rules [where env = sample_env and w = ?w and s = empty_state
        and wa = ?wa and wb = ?wb and gl = "[2, 5]" and gp = "[3, 5]" and d = True
        and ws = "[sample_way 6 [(''highway'', ''y'')] [1, 2] ]"]
    by (simp add: sample_defs IsClosed_def way_step_def IsInserted_def emit_def line_string_branch_def
        polygon_branch_def insert_matches_def)
  have b: "trace (way_assembler sample_env True [?w] empty_state)
     = [InsertedWaysIsInserted 5, CoordsFillWay 5,
        DiffCoordsAddFromWay (?w\<lparr>Nodes := map (\<lambda>i. sample_merc (sample_coord i)) [4, 5, 6, 7, 4]\<rparr>)]"
    using way_matching_both_rules [where env = sample_env and w = ?w and s = empty_state
        and wa = ?wa and wb = ?wb and gl = "[2, 5]" and gp = "[3, 5]" and d = True]
    by (simp add: sample_defs IsClosed_def)
  show ?thesis using a b by simp
qed

subsection \<open>C8: the batch size of the insert buffer\<close>























end
